theory Spec2Isabelle
  imports Complex_Main "HOL-Library.AList"
begin

section \<open>Values exchanged with the upstream feed\<close>

text \<open>
  The monitor receives JSON documents and handles them as untyped Python values
  (\<^verbatim>\<open>None\<close>, \<^verbatim>\<open>bool\<close>, numbers, \<^verbatim>\<open>str\<close>, \<^verbatim>\<open>list\<close>, \<^verbatim>\<open>dict\<close>).
  Numbers (Python \<^verbatim>\<open>int\<close> and \<^verbatim>\<open>float\<close>) are modelled as reals: arithmetic is exact,
  rounding and the IEEE special values are outside this first model. The functions that
  test a latency against the bounds are given a second time over floats with \<^verbatim>\<open>NaN\<close> and the
  infinities, and the aggregator a second time with the rounding of doubles, in sections
  of their own below. A \<^verbatim>\<open>dict\<close> is the list of its items, looked up with \<open>map_of\<close>. Strings
  are ASCII.
\<close>

datatype json =
    JNull
  | JBool bool
  | JNum real
  | JStr string
  | JArr "json list"
  | JObj "(string \<times> json) list"

type_synonym dict = "(string \<times> json) list"

datatype py_error = AttributeError | TypeError | KeyError

text \<open>Python truthiness, as used by \<^verbatim>\<open>if not x\<close>.\<close>

fun truthy :: "json \<Rightarrow> bool" where
  "truthy JNull = False"
| "truthy (JBool b) = b"
| "truthy (JNum r) = (r \<noteq> 0)"
| "truthy (JStr s) = (s \<noteq> [])"
| "truthy (JArr xs) = (xs \<noteq> [])"
| "truthy (JObj d) = (d \<noteq> [])"

text \<open>The operand of \<^verbatim>\<open>now - x\<close>: numbers and booleans subtract, anything else raises
  \<^verbatim>\<open>TypeError\<close>.\<close>

fun num_of :: "json \<Rightarrow> real option" where
  "num_of (JNum r) = Some r"
| "num_of (JBool b) = Some (if b then 1 else 0)"
| "num_of _ = None"

text \<open>\<^verbatim>\<open>d.get(k, default)\<close> and \<^verbatim>\<open>d.get(k)\<close>.\<close>

definition dict_get :: "dict \<Rightarrow> string \<Rightarrow> json \<Rightarrow> json" where
  "dict_get d k dflt = (case map_of d k of Some v \<Rightarrow> v | None \<Rightarrow> dflt)"

definition dict_get_none :: "dict \<Rightarrow> string \<Rightarrow> json" where
  "dict_get_none d k = dict_get d k JNull"

section \<open>utils.py\<close>

definition CHAIN_MAP :: "(string \<times> string) list" where
  "CHAIN_MAP =
     [(''sol'', ''solana''),
      (''bsc'', ''bnb''),
      (''base'', ''base''),
      (''eth'', ''ethereum''),
      (''Solana'', ''solana''),
      (''BNB Chain'', ''bnb''),
      (''Base'', ''base''),
      (''Ethereum'', ''ethereum'')]"

text \<open>\<^verbatim>\<open>str.lower()\<close> on ASCII text.\<close>

definition char_lower :: "char \<Rightarrow> char" where
  "char_lower c =
     (let n = (of_char c :: nat) in if 65 \<le> n \<and> n \<le> 90 then char_of (n + 32) else c)"

definition lower :: "string \<Rightarrow> string" where
  "lower s = map char_lower s"

text \<open>\<^verbatim>\<open>get_chain_name(chain_code: str) -> str\<close>:
  \<^verbatim>\<open>CHAIN_MAP.get(chain_code, chain_code.lower())\<close>.\<close>

definition get_chain_name :: "string \<Rightarrow> string" where
  "get_chain_name chain_code =
     (case map_of CHAIN_MAP chain_code of Some v \<Rightarrow> v | None \<Rightarrow> lower chain_code)"

text \<open>The same call with an untyped argument, as the decoders make it. Python evaluates
  the default \<^verbatim>\<open>chain_code.lower()\<close> before the lookup, so every value that is not a
  \<^verbatim>\<open>str\<close> raises \<^verbatim>\<open>AttributeError\<close>.\<close>

fun get_chain_name_dyn :: "json \<Rightarrow> py_error + string" where
  "get_chain_name_dyn (JStr s) = Inr (get_chain_name s)"
| "get_chain_name_dyn _ = Inl AttributeError"

text \<open>\<^verbatim>\<open>calculate_latency(server_timestamp)\<close>, with the reading of \<^verbatim>\<open>time.time()\<close>
  as the argument \<open>now\<close>. The \<^verbatim>\<open>TypeError\<close> of a non-numeric timestamp is caught by the
  function's own \<^verbatim>\<open>except Exception\<close> and gives \<^verbatim>\<open>None\<close>.\<close>

definition calculate_latency :: "real \<Rightarrow> json \<Rightarrow> real option" where
  "calculate_latency now server_timestamp =
     (if \<not> truthy server_timestamp then None
      else case num_of server_timestamp of
             None \<Rightarrow> None
           | Some t \<Rightarrow>
               (let latency_ms = (now - t) * 1000
                in if latency_ms < 0 \<or> latency_ms > 120000 then None else Some latency_ms))"

section \<open>stats.py\<close>

text \<open>\<^verbatim>\<open>min_swap_latency\<close> starts at \<^verbatim>\<open>float('inf')\<close>.\<close>

datatype latency_min = Infinity | Finite real

fun py_min :: "latency_min \<Rightarrow> real \<Rightarrow> latency_min" where
  "py_min Infinity l = Finite l"
| "py_min (Finite m) l = Finite (min m l)"

text \<open>A per-chain bucket is the dict
  \<^verbatim>\<open>{'swap_count': 0, 'pool_count': 0, 'total_latency': 0}\<close>.\<close>

record bucket =
  chain_swap_count :: int
  chain_pool_count :: int
  chain_total_latency :: real

definition new_bucket :: bucket where
  "new_bucket = \<lparr>chain_swap_count = 0, chain_pool_count = 0, chain_total_latency = 0\<rparr>"

text \<open>\<^verbatim>\<open>bucket[key] += 1\<close>: a key the dict does not have raises \<^verbatim>\<open>KeyError\<close>.\<close>

definition bucket_incr :: "string \<Rightarrow> bucket \<Rightarrow> bucket option" where
  "bucket_incr key b =
     (if key = ''swap_count'' then Some (b\<lparr>chain_swap_count := chain_swap_count b + 1\<rparr>)
      else if key = ''pool_count'' then Some (b\<lparr>chain_pool_count := chain_pool_count b + 1\<rparr>)
      else if key = ''total_latency'' then Some (b\<lparr>chain_total_latency := chain_total_latency b + 1\<rparr>)
      else None)"

record statistics =
  swap_count :: int
  pool_count :: int
  total_swap_latency :: real
  total_pool_latency :: real
  min_swap_latency :: latency_min
  max_swap_latency :: real
  min_pool_latency :: latency_min
  max_pool_latency :: real
  by_chain :: "(string \<times> bucket) list"

definition Statistics_init :: statistics where
  "Statistics_init =
     \<lparr>swap_count = 0, pool_count = 0, total_swap_latency = 0, total_pool_latency = 0,
      min_swap_latency = Infinity, max_swap_latency = 0,
      min_pool_latency = Infinity, max_pool_latency = 0, by_chain = []\<rparr>"

text \<open>The first half of \<^verbatim>\<open>Statistics.update\<close>: the global counters of the event type.\<close>

definition update_global :: "string \<Rightarrow> real \<Rightarrow> statistics \<Rightarrow> statistics" where
  "update_global event_type latency_ms s =
     (if event_type = ''swap'' then
        s\<lparr>swap_count := swap_count s + 1,
          total_swap_latency := total_swap_latency s + latency_ms,
          min_swap_latency := py_min (min_swap_latency s) latency_ms,
          max_swap_latency := max (max_swap_latency s) latency_ms\<rparr>
      else if event_type = ''pool'' then
        s\<lparr>pool_count := pool_count s + 1,
          total_pool_latency := total_pool_latency s + latency_ms,
          min_pool_latency := py_min (min_pool_latency s) latency_ms,
          max_pool_latency := max (max_pool_latency s) latency_ms\<rparr>
      else s)"

text \<open>\<^verbatim>\<open>if chain not in self.by_chain: self.by_chain[chain] = {...}\<close>.\<close>

definition ensure_bucket :: "string \<Rightarrow> statistics \<Rightarrow> statistics" where
  "ensure_bucket chain s =
     (if map_of (by_chain s) chain = None
      then s\<lparr>by_chain := by_chain s @ [(chain, new_bucket)]\<rparr> else s)"

text \<open>\<^verbatim>\<open>Statistics.update\<close>. The object is mutated in place, so the statistics reached
  when \<^verbatim>\<open>KeyError\<close> is raised are returned beside the error.\<close>

definition Statistics_update ::
  "string \<Rightarrow> string \<Rightarrow> real \<Rightarrow> statistics \<Rightarrow> statistics \<times> py_error option" where
  "Statistics_update event_type chain latency_ms s =
     (let s1 = update_global event_type latency_ms s;
          s2 = ensure_bucket chain s1
      in case map_of (by_chain s2) chain of
           None \<Rightarrow> (s2, Some KeyError)
         | Some b \<Rightarrow>
             (case bucket_incr (event_type @ ''_count'') b of
                None \<Rightarrow> (s2, Some KeyError)
              | Some b1 \<Rightarrow>
                  (s2\<lparr>by_chain :=
                        AList.update chain
                          (b1\<lparr>chain_total_latency := chain_total_latency b1 + latency_ms\<rparr>)
                          (by_chain s2)\<rparr>,
                   None)))"

text \<open>What \<^verbatim>\<open>print_summary\<close> renders: a section for swaps and one for pools (total,
  average, min, max), each only when its count is positive, and a line per chain with a
  positive number of events (chain, events, average). Colours and the truncation of min
  and max to whole milliseconds are not modelled.\<close>

record summary =
  swap_section :: "(int \<times> real \<times> latency_min \<times> real) option"
  pool_section :: "(int \<times> real \<times> latency_min \<times> real) option"
  chain_section :: "(string \<times> int \<times> real) list"

definition chain_line :: "string \<times> bucket \<Rightarrow> (string \<times> int \<times> real) option" where
  "chain_line cd =
     (let total = chain_swap_count (snd cd) + chain_pool_count (snd cd)
      in if total > 0 then Some (fst cd, total, chain_total_latency (snd cd) / of_int total)
         else None)"

definition print_summary :: "statistics \<Rightarrow> summary" where
  "print_summary s =
     \<lparr>swap_section =
        (if swap_count s > 0
         then Some (swap_count s, total_swap_latency s / of_int (swap_count s),
                    min_swap_latency s, max_swap_latency s)
         else None),
      pool_section =
        (if pool_count s > 0
         then Some (pool_count s, total_pool_latency s / of_int (pool_count s),
                    min_pool_latency s, max_pool_latency s)
         else None),
      chain_section = List.map_filter chain_line (by_chain s)\<rparr>"

section \<open>metrics.py\<close>

text \<open>The three module-level gauges, \<^verbatim>\<open>None\<close> until \<^verbatim>\<open>init_metrics\<close> runs. A gauge
  keeps the last value set for each label tuple.\<close>

record metrics =
  swap_latency_gauge :: "(string \<times> real) list option"
  pool_discovery_latency_gauge :: "((string \<times> string) \<times> real) list option"
  all_aggregator_latency_gauge :: "((string \<times> string) \<times> real) list option"

definition init_metrics :: "metrics \<Rightarrow> metrics" where
  "init_metrics m =
     m\<lparr>swap_latency_gauge := Some [], pool_discovery_latency_gauge := Some [],
       all_aggregator_latency_gauge := Some []\<rparr>"

definition set_swap_latency :: "string \<Rightarrow> real \<Rightarrow> metrics \<Rightarrow> metrics" where
  "set_swap_latency chain latency_ms m =
     (case swap_latency_gauge m of
        Some g \<Rightarrow> m\<lparr>swap_latency_gauge := Some (AList.update chain latency_ms g)\<rparr>
      | None \<Rightarrow> m)"

definition set_pool_discovery_latency :: "string \<Rightarrow> string \<Rightarrow> real \<Rightarrow> metrics \<Rightarrow> metrics" where
  "set_pool_discovery_latency aggregator chain latency_ms m =
     (case pool_discovery_latency_gauge m of
        Some g \<Rightarrow>
          m\<lparr>pool_discovery_latency_gauge := Some (AList.update (aggregator, chain) latency_ms g)\<rparr>
      | None \<Rightarrow> m)"

definition set_all_aggregator_latency :: "string \<Rightarrow> string \<Rightarrow> real \<Rightarrow> metrics \<Rightarrow> metrics" where
  "set_all_aggregator_latency aggregator chain latency_ms m =
     (case all_aggregator_latency_gauge m of
        Some g \<Rightarrow>
          m\<lparr>all_aggregator_latency_gauge := Some (AList.update (aggregator, chain) latency_ms g)\<rparr>
      | None \<Rightarrow> m)"

definition record_latency :: "string \<Rightarrow> string \<Rightarrow> real \<Rightarrow> metrics \<Rightarrow> metrics" where
  "record_latency aggregator chain latency_ms m =
     (if latency_ms < 0 \<or> latency_ms > 120000 then m
      else set_all_aggregator_latency aggregator chain latency_ms
             (set_swap_latency chain latency_ms m))"

definition record_pool_discovery_latency ::
  "string \<Rightarrow> string \<Rightarrow> real \<Rightarrow> metrics \<Rightarrow> metrics" where
  "record_pool_discovery_latency aggregator chain latency_ms m =
     (if latency_ms < 0 \<or> latency_ms > 120000 then m
      else set_all_aggregator_latency aggregator chain latency_ms
             (set_pool_discovery_latency aggregator chain latency_ms m))"

section \<open>gmgn_websocket.py\<close>

text \<open>What the monitor prints, by kind of line. A swap line and a pool line carry the
  chain, the shortened address and the latency; the formatting of the other fields (through
  \<^verbatim>\<open>safe_float\<close>, which returns its default instead of raising) is not modelled.\<close>

datatype line =
    DebugLine
  | SwapLine string json real
  | PoolLine string json real
  | AckLine
  | SummaryLine summary
  | ErrorLine
  | StatusLine

text \<open>The state the monitor works on: the \<^verbatim>\<open>Statistics\<close> object, the gauges of
  metrics.py, the console, and the clock: \<open>clock st k\<close> is what the \<open>k\<close>-th call of
  \<^verbatim>\<open>time.time()\<close> returns, \<open>ticks st\<close> counts the calls made so far.\<close>

record monitor =
  stats_obj :: statistics
  gauges :: metrics
  clock :: "nat \<Rightarrow> real"
  ticks :: nat
  console :: "line list"

definition emit :: "line \<Rightarrow> monitor \<Rightarrow> monitor" where
  "emit l st = st\<lparr>console := console st @ [l]\<rparr>"

definition time_time :: "monitor \<Rightarrow> real \<times> monitor" where
  "time_time st = (clock st (ticks st), st\<lparr>ticks := Suc (ticks st)\<rparr>)"

text \<open>\<^verbatim>\<open>utils.calculate_latency\<close> as the decoders call it: the clock is read only after
  the test \<^verbatim>\<open>if not server_timestamp\<close>.\<close>

definition calculate_latency_now :: "json \<Rightarrow> monitor \<Rightarrow> real option \<times> monitor" where
  "calculate_latency_now server_timestamp st =
     (if \<not> truthy server_timestamp then (None, st)
      else (let (now, st1) = time_time st in (calculate_latency now server_timestamp, st1)))"

text \<open>Iterating a value with \<^verbatim>\<open>for x in v\<close>: a list gives its elements, a \<^verbatim>\<open>str\<close> its
  characters, a \<^verbatim>\<open>dict\<close> its keys; \<^verbatim>\<open>None\<close>, booleans and numbers raise \<^verbatim>\<open>TypeError\<close>
  (as \<^verbatim>\<open>len(v)\<close> does on them).\<close>

fun py_iter :: "json \<Rightarrow> py_error + json list" where
  "py_iter (JArr xs) = Inr xs"
| "py_iter (JStr s) = Inr (map (\<lambda>c. JStr [c]) s)"
| "py_iter (JObj d) = Inr (map (\<lambda>kv. JStr (fst kv)) d)"
| "py_iter _ = Inl TypeError"

text \<open>\<^verbatim>\<open>a[:8] if len(a) > 8 else a\<close>: \<^verbatim>\<open>len\<close> raises \<^verbatim>\<open>TypeError\<close> on \<^verbatim>\<open>None\<close>, booleans
  and numbers, and a \<^verbatim>\<open>dict\<close> cannot be sliced.\<close>

fun short8 :: "json \<Rightarrow> py_error + json" where
  "short8 (JStr s) = Inr (JStr (if length s > 8 then take 8 s else s))"
| "short8 (JArr xs) = Inr (JArr (if length xs > 8 then take 8 xs else xs))"
| "short8 (JObj d) = (if length d > 8 then Inl TypeError else Inr (JObj d))"
| "short8 _ = Inl TypeError"

subsection \<open>Swap trades\<close>

text \<open>The fields \<^verbatim>\<open>handle_swap_trade\<close> reads from one trade.\<close>

record swap_record =
  sw_symbol :: json
  sw_address :: json
  sw_price :: json
  sw_market_cap :: json
  sw_volume_1h :: json
  sw_buys_1h :: json
  sw_sells_1h :: json
  sw_chain_raw :: json
  sw_server_time :: json

definition decode_swap :: "dict \<Rightarrow> swap_record" where
  "decode_swap trade =
     \<lparr>sw_symbol = dict_get trade ''s'' (JStr ''UNKNOWN''),
      sw_address = dict_get trade ''a'' (JStr []),
      sw_price = dict_get trade ''p'' (JNum 0),
      sw_market_cap = dict_get trade ''mc'' (JNum 0),
      sw_volume_1h = dict_get trade ''v1h'' (JNum 0),
      sw_buys_1h = dict_get trade ''b1h'' (JNum 0),
      sw_sells_1h = dict_get trade ''s1h'' (JNum 0),
      sw_chain_raw = dict_get trade ''c'' (dict_get trade ''n'' (JStr ''unknown'')),
      sw_server_time = dict_get_none trade ''t''\<rparr>"

text \<open>The debug block for a trade whose chain is the literal \<^verbatim>\<open>'unknown'\<close>:
  \<^verbatim>\<open>address.startswith('0x')\<close> raises \<^verbatim>\<open>AttributeError\<close> unless the address is a
  \<^verbatim>\<open>str\<close>.\<close>

definition debug_unknown_chain ::
  "bool \<Rightarrow> dict \<Rightarrow> swap_record \<Rightarrow> monitor \<Rightarrow> monitor \<times> py_error option" where
  "debug_unknown_chain debug trade r st =
     (if sw_chain_raw r = JStr ''unknown'' \<and> debug then
        (let st1 = emit DebugLine st
         in case sw_address r of
              JStr a \<Rightarrow>
                (if take 2 a = ''0x'' then
                   (let st2 = emit DebugLine st1
                    in (if map_of trade ''lc_ex'' \<noteq> None then emit DebugLine st2 else st2, None))
                 else (st1, None))
            | _ \<Rightarrow> (st1, Some AttributeError))
      else (st, None))"

text \<open>The rest of the loop body, once the latency is valid: the gauges, the statistics,
  then the printed line. The formatting of the clock readings is taken to succeed.\<close>

definition account_swap ::
  "bool \<Rightarrow> string \<Rightarrow> swap_record \<Rightarrow> real \<Rightarrow> monitor \<Rightarrow> monitor \<times> py_error option" where
  "account_swap debug chain r latency st =
     (let st1 = st\<lparr>gauges := record_latency ''gmgn'' chain latency (gauges st)\<rparr>;
          (s, err) = Statistics_update ''swap'' chain latency (stats_obj st1);
          st2 = st1\<lparr>stats_obj := s\<rparr>
      in case err of
           Some e \<Rightarrow> (st2, Some e)
         | None \<Rightarrow>
             (case short8 (sw_address r) of
                Inl e \<Rightarrow> (st2, Some e)
              | Inr addr_short \<Rightarrow>
                  (emit (SwapLine chain addr_short latency)
                     (if debug then emit DebugLine st2 else st2),
                   None)))"

text \<open>One iteration of \<^verbatim>\<open>for trade in data\<close>. An element that is not a \<^verbatim>\<open>dict\<close> has no
  \<^verbatim>\<open>get\<close>.\<close>

definition swap_trade_step :: "bool \<Rightarrow> json \<Rightarrow> monitor \<Rightarrow> monitor \<times> py_error option" where
  "swap_trade_step debug trade st =
     (case trade of
        JObj d \<Rightarrow>
          (let r = decode_swap d
           in case debug_unknown_chain debug d r st of
                (st1, Some e) \<Rightarrow> (st1, Some e)
              | (st1, None) \<Rightarrow>
                  (case get_chain_name_dyn (sw_chain_raw r) of
                     Inl e \<Rightarrow> (st1, Some e)
                   | Inr chain \<Rightarrow>
                       (case calculate_latency_now (sw_server_time r) st1 of
                          (None, st2) \<Rightarrow> (st2, None)
                        | (Some latency, st2) \<Rightarrow> account_swap debug chain r latency st2)))
      | _ \<Rightarrow> (st, Some AttributeError))"

fun swap_loop :: "bool \<Rightarrow> json list \<Rightarrow> monitor \<Rightarrow> monitor \<times> py_error option" where
  "swap_loop debug [] st = (st, None)"
| "swap_loop debug (trade # rest) st =
     (case swap_trade_step debug trade st of
        (st1, Some e) \<Rightarrow> (st1, Some e)
      | (st1, None) \<Rightarrow> swap_loop debug rest st1)"

text \<open>\<^verbatim>\<open>handle_swap_trade(data, receive_time, stats_obj, debug)\<close>; \<^verbatim>\<open>receive_time\<close> is
  only printed.\<close>

definition handle_swap_trade :: "bool \<Rightarrow> json \<Rightarrow> monitor \<Rightarrow> monitor \<times> py_error option" where
  "handle_swap_trade debug data st =
     (if \<not> truthy data then (st, None)
      else case py_iter data of
             Inl e \<Rightarrow> (st, Some e)
           | Inr trades \<Rightarrow> (if length trades = 0 then (st, None) else swap_loop debug trades st))"

subsection \<open>New pools\<close>

record pool_record =
  pl_exchange :: json
  pl_pool_addr :: json
  pl_initial_liquidity :: json
  pl_pool_open_time :: json
  pl_symbol :: json
  pl_name :: json
  pl_price :: json
  pl_market_cap :: json
  pl_volume_1h :: json
  pl_holder_count :: json

text \<open>The fields read from one pool entry; \<open>open_time\<close> is the \<^verbatim>\<open>'ot'\<close> of the batch
  item. A \<^verbatim>\<open>'bti'\<close> that is not a \<^verbatim>\<open>dict\<close> has no \<^verbatim>\<open>get\<close>.\<close>

definition decode_pool :: "json \<Rightarrow> dict \<Rightarrow> py_error + pool_record" where
  "decode_pool open_time pool =
     (case dict_get pool ''bti'' (JObj []) of
        JObj token_info \<Rightarrow>
          Inr \<lparr>pl_exchange = dict_get pool ''ex'' (JStr ''unknown''),
               pl_pool_addr = dict_get pool ''pa'' (JStr []),
               pl_initial_liquidity = dict_get pool ''il'' (JStr ''0''),
               pl_pool_open_time = dict_get pool ''ot'' open_time,
               pl_symbol = dict_get token_info ''s'' (JStr ''UNKNOWN''),
               pl_name = dict_get token_info ''n'' (JStr ''Unknown''),
               pl_price = dict_get token_info ''p'' (JNum 0),
               pl_market_cap = dict_get token_info ''mc'' (JNum 0),
               pl_volume_1h = dict_get token_info ''v1h'' (JNum 0),
               pl_holder_count = dict_get token_info ''hc'' (JNum 0)\<rparr>
      | _ \<Rightarrow> Inl AttributeError)"

definition account_pool ::
  "bool \<Rightarrow> string \<Rightarrow> pool_record \<Rightarrow> real \<Rightarrow> monitor \<Rightarrow> monitor \<times> py_error option" where
  "account_pool debug chain r latency st =
     (let st1 = st\<lparr>gauges := record_pool_discovery_latency ''gmgn'' chain latency (gauges st)\<rparr>;
          (s, err) = Statistics_update ''pool'' chain latency (stats_obj st1);
          st2 = st1\<lparr>stats_obj := s\<rparr>
      in case err of
           Some e \<Rightarrow> (st2, Some e)
         | None \<Rightarrow>
             (case short8 (pl_pool_addr r) of
                Inl e \<Rightarrow> (st2, Some e)
              | Inr pool_short \<Rightarrow>
                  (emit (PoolLine chain pool_short latency)
                     (if debug then emit DebugLine st2 else st2),
                   None)))"

text \<open>One iteration of \<^verbatim>\<open>for pool in pools\<close>.\<close>

definition pool_entry_step ::
  "bool \<Rightarrow> string \<Rightarrow> json \<Rightarrow> json \<Rightarrow> monitor \<Rightarrow> monitor \<times> py_error option" where
  "pool_entry_step debug chain open_time pool st =
     (case pool of
        JObj p \<Rightarrow>
          (case decode_pool open_time p of
             Inl e \<Rightarrow> (st, Some e)
           | Inr r \<Rightarrow>
               (case calculate_latency_now (pl_pool_open_time r) st of
                  (None, st1) \<Rightarrow> (st1, None)
                | (Some latency, st1) \<Rightarrow> account_pool debug chain r latency st1))
      | _ \<Rightarrow> (st, Some AttributeError))"

fun pool_loop ::
  "bool \<Rightarrow> string \<Rightarrow> json \<Rightarrow> json list \<Rightarrow> monitor \<Rightarrow> monitor \<times> py_error option" where
  "pool_loop debug chain open_time [] st = (st, None)"
| "pool_loop debug chain open_time (pool # rest) st =
     (case pool_entry_step debug chain open_time pool st of
        (st1, Some e) \<Rightarrow> (st1, Some e)
      | (st1, None) \<Rightarrow> pool_loop debug chain open_time rest st1)"

text \<open>The list of pool entries of a batch item: its \<^verbatim>\<open>'p'\<close>, or the item itself when
  \<^verbatim>\<open>'p'\<close> is missing or falsy and the item has a \<^verbatim>\<open>'pa'\<close>.\<close>

definition pools_of :: "dict \<Rightarrow> json" where
  "pools_of pool_event =
     (let pools = dict_get pool_event ''p'' (JArr [])
      in if \<not> truthy pools \<and> map_of pool_event ''pa'' \<noteq> None
         then JArr [JObj pool_event] else pools)"

text \<open>One iteration of \<^verbatim>\<open>for pool_event in data\<close>.\<close>

definition pool_event_step :: "bool \<Rightarrow> json \<Rightarrow> monitor \<Rightarrow> monitor \<times> py_error option" where
  "pool_event_step debug pool_event st =
     (case pool_event of
        JObj d \<Rightarrow>
          (case get_chain_name_dyn (dict_get d ''c'' (dict_get d ''n'' (JStr ''unknown''))) of
             Inl e \<Rightarrow> (st, Some e)
           | Inr chain \<Rightarrow>
               (case py_iter (pools_of d) of
                  Inl e \<Rightarrow> (st, Some e)
                | Inr pools \<Rightarrow> pool_loop debug chain (dict_get_none d ''ot'') pools st))
      | _ \<Rightarrow> (st, Some AttributeError))"

fun pool_event_loop :: "bool \<Rightarrow> json list \<Rightarrow> monitor \<Rightarrow> monitor \<times> py_error option" where
  "pool_event_loop debug [] st = (st, None)"
| "pool_event_loop debug (pool_event # rest) st =
     (case pool_event_step debug pool_event st of
        (st1, Some e) \<Rightarrow> (st1, Some e)
      | (st1, None) \<Rightarrow> pool_event_loop debug rest st1)"

definition handle_new_pool :: "bool \<Rightarrow> json \<Rightarrow> monitor \<Rightarrow> monitor \<times> py_error option" where
  "handle_new_pool debug data st =
     (if \<not> truthy data then (st, None)
      else case py_iter data of
             Inl e \<Rightarrow> (st, Some e)
           | Inr events \<Rightarrow>
               (if length events = 0 then (st, None) else pool_event_loop debug events st))"

subsection \<open>The listening loop\<close>

text \<open>The end of the loop body of \<^verbatim>\<open>listen_to_gmgn\<close>, for a message with a channel other
  than \<^verbatim>\<open>'ack'\<close>: the two handlers; any other channel does nothing.\<close>

definition dispatch :: "bool \<Rightarrow> json \<Rightarrow> json \<Rightarrow> monitor \<Rightarrow> monitor \<times> py_error option" where
  "dispatch debug channel payload st =
     (if channel = JStr ''new_pair_update'' then handle_swap_trade debug payload st
      else if channel = JStr ''new_pool_info'' then handle_new_pool debug payload st
      else (st, None))"

text \<open>The body of \<^verbatim>\<open>async for message in websocket\<close> after the two statements
  \<^verbatim>\<open>receive_time = time.time()\<close> and \<^verbatim>\<open>message_count += 1\<close>; \<open>message_count\<close> is the
  value already incremented. A message is what \<^verbatim>\<open>json.loads\<close> makes of it, \<open>None\<close> when
  it raises \<^verbatim>\<open>JSONDecodeError\<close>. A parsed message that is not a \<^verbatim>\<open>dict\<close> has no
  \<^verbatim>\<open>get\<close>.\<close>

definition listen_step ::
  "bool \<Rightarrow> json option \<Rightarrow> int \<Rightarrow> monitor \<Rightarrow> monitor \<times> py_error option" where
  "listen_step debug message message_count st =
     (case message of
        None \<Rightarrow> (if debug then emit DebugLine st else st, None)
      | Some (JObj data) \<Rightarrow>
          (let channel = dict_get_none data ''channel'';
               payload = dict_get_none data ''data''
           in if \<not> truthy channel then (if debug then emit DebugLine st else st, None)
              else if channel = JStr ''ack'' then (emit AckLine st, None)
              else
                (case dispatch debug channel payload st of
                   (st1, Some e) \<Rightarrow> (st1, Some e)
                 | (st1, None) \<Rightarrow>
                     (if message_count mod 50 = 0
                      then emit (SummaryLine (print_summary (stats_obj st1))) st1
                      else st1,
                      None)))
      | Some _ \<Rightarrow> (st, Some AttributeError))"

text \<open>\<^verbatim>\<open>listen_to_gmgn\<close>: the loop over the messages of one connection, from a given value
  of \<^verbatim>\<open>message_count\<close>. An exception of the body leaves the loop, since both \<^verbatim>\<open>except\<close>
  clauses are outside \<^verbatim>\<open>async for\<close>, and is printed. The result is the final
  \<^verbatim>\<open>message_count\<close> and the state. The line printed when the connection closes
  abnormally is not modelled.\<close>

fun listen_loop :: "bool \<Rightarrow> json option list \<Rightarrow> int \<Rightarrow> monitor \<Rightarrow> int \<times> monitor" where
  "listen_loop debug [] message_count st = (message_count, st)"
| "listen_loop debug (message # rest) message_count st =
     (let (receive_time, st1) = time_time st;
          message_count1 = message_count + 1
      in case listen_step debug message message_count1 st1 of
           (st2, Some e) \<Rightarrow> (message_count1, emit ErrorLine st2)
         | (st2, None) \<Rightarrow> listen_loop debug rest message_count1 st2)"

definition listen_to_gmgn :: "bool \<Rightarrow> json option list \<Rightarrow> monitor \<Rightarrow> int \<times> monitor" where
  "listen_to_gmgn debug messages st = listen_loop debug messages 0 st"

subsection \<open>The reconnect loop\<close>

text \<open>One pass of \<^verbatim>\<open>while not stop_event.is_set()\<close>: the connection fails, or a
  \<^verbatim>\<open>send\<close> of the subscriptions fails, or all subscriptions are sent and the monitor
  listens to the messages of that connection until it is lost.\<close>

datatype cycle = ConnectFails | SubscribeFails | Listens "json option list"

definition attempt :: "bool \<Rightarrow> cycle \<Rightarrow> int \<Rightarrow> monitor \<Rightarrow> int \<times> monitor" where
  "attempt debug c reconnect_delay st =
     (case c of
        ConnectFails \<Rightarrow> (reconnect_delay, emit ErrorLine (emit StatusLine st))
      | SubscribeFails \<Rightarrow> (reconnect_delay, emit ErrorLine (emit StatusLine st))
      | Listens messages \<Rightarrow> (5, snd (listen_to_gmgn debug messages (emit StatusLine st))))"

text \<open>The loop over a finite run of passes, each with the value of \<^verbatim>\<open>stop_event\<close> read
  after it. The result is the state and the durations given to \<^verbatim>\<open>asyncio.sleep\<close>, in
  order. When the stop event is set the final summary is printed; a run that ends with the
  event unset is a monitor still running.\<close>

fun monitor_loop ::
  "bool \<Rightarrow> (cycle \<times> bool) list \<Rightarrow> int \<Rightarrow> monitor \<Rightarrow> monitor \<times> int list" where
  "monitor_loop debug [] reconnect_delay st = (st, [])"
| "monitor_loop debug ((c, stop) # rest) reconnect_delay st =
     (let (delay, st1) = attempt debug c reconnect_delay st
      in if stop then (emit StatusLine (emit (SummaryLine (print_summary (stats_obj st1))) st1), [])
         else (let (st2, sleeps) =
                     monitor_loop debug rest (min (delay * 2) 60) (emit StatusLine st1)
               in (st2, delay # sleeps)))"

definition run_gmgn_monitor ::
  "bool \<Rightarrow> (cycle \<times> bool) list \<Rightarrow> monitor \<Rightarrow> monitor \<times> int list" where
  "run_gmgn_monitor debug cycles st =
     monitor_loop debug cycles 5 (emit StatusLine (st\<lparr>stats_obj := Statistics_init\<rparr>))"

section \<open>Runs of the operations\<close>

text \<open>A sequence of calls of \<^verbatim>\<open>Statistics.update\<close>, each with its event type, chain and
  latency; the first exception ends the sequence.\<close>

fun apply_updates ::
  "(string \<times> string \<times> real) list \<Rightarrow> statistics \<Rightarrow> statistics \<times> py_error option" where
  "apply_updates [] s = (s, None)"
| "apply_updates ((event_type, chain, latency_ms) # rest) s =
     (case Statistics_update event_type chain latency_ms s of
        (s1, Some e) \<Rightarrow> (s1, Some e)
      | (s1, None) \<Rightarrow> apply_updates rest s1)"

text \<open>The latencies of the calls of one event type, in order.\<close>

definition latencies_of :: "string \<Rightarrow> (string \<times> string \<times> real) list \<Rightarrow> real list" where
  "latencies_of event_type us = map (\<lambda>u. snd (snd u)) (filter (\<lambda>u. fst u = event_type) us)"

text \<open>The totals over all per-chain buckets.\<close>

definition chain_events :: "statistics \<Rightarrow> int" where
  "chain_events s = (\<Sum>cb\<leftarrow>by_chain s. chain_swap_count (snd cb) + chain_pool_count (snd cb))"

definition chain_latency :: "statistics \<Rightarrow> real" where
  "chain_latency s = (\<Sum>cb\<leftarrow>by_chain s. chain_total_latency (snd cb))"

text \<open>What a call of \<^verbatim>\<open>Statistics.update\<close> with event type swap or pool does to the
  bucket of its chain.\<close>

definition bump :: "string \<Rightarrow> real \<Rightarrow> bucket \<Rightarrow> bucket" where
  "bump event_type l b =
     (if event_type = ''swap''
      then b\<lparr>chain_swap_count := chain_swap_count b + 1,
             chain_total_latency := chain_total_latency b + l\<rparr>
      else b\<lparr>chain_pool_count := chain_pool_count b + 1,
             chain_total_latency := chain_total_latency b + l\<rparr>)"

text \<open>A pass of the reconnect loop that does not reach the listening state.\<close>

definition is_failure :: "cycle \<Rightarrow> bool" where
  "is_failure c = (case c of Listens messages \<Rightarrow> False | _ \<Rightarrow> True)"

text \<open>Idempotence of the normalization at one input, with the inputs it holds for.\<close>

definition idem_at :: "string \<Rightarrow> bool" where
  "idem_at x \<longleftrightarrow>
     ((get_chain_name (get_chain_name x) = get_chain_name x)
       = (x \<in> {''sol'', ''bsc'', ''eth''} \<or> lower x \<notin> {''sol'', ''bsc'', ''eth''}))"

text \<open>The monitor as \<^verbatim>\<open>main\<close> starts it: \<^verbatim>\<open>init_metrics()\<close> has run, the statistics are
  new, nothing is printed yet; \<open>clk\<close> is the clock.\<close>

definition started_monitor :: "(nat \<Rightarrow> real) \<Rightarrow> monitor" where
  "started_monitor clk =
     \<lparr>stats_obj = Statistics_init,
      gauges = init_metrics \<lparr>swap_latency_gauge = None, pool_discovery_latency_gauge = None,
                             all_aggregator_latency_gauge = None\<rparr>,
      clock = clk, ticks = 0, console = []\<rparr>"

text \<open>The number of summaries rendered so far.\<close>

fun is_summary :: "line \<Rightarrow> bool" where
  "is_summary (SummaryLine s) = True"
| "is_summary _ = False"

definition summaries :: "monitor \<Rightarrow> nat" where
  "summaries st = length (filter is_summary (console st))"

text \<open>The messages the listening loop leaves with \<^verbatim>\<open>continue\<close> (not parsed, no channel,
  or an \<^verbatim>\<open>"ack"\<close>), and the messages that reach the dispatch on the channel.\<close>

definition skipped :: "json option \<Rightarrow> bool" where
  "skipped message =
     (case message of
        None \<Rightarrow> True
      | Some (JObj data) \<Rightarrow>
          \<not> truthy (dict_get_none data ''channel'') \<or> dict_get_none data ''channel'' = JStr ''ack''
      | Some _ \<Rightarrow> False)"

definition channeled :: "json option \<Rightarrow> bool" where
  "channeled message =
     (case message of
        Some (JObj data) \<Rightarrow>
          truthy (dict_get_none data ''channel'') \<and> dict_get_none data ''channel'' \<noteq> JStr ''ack''
      | _ \<Rightarrow> False)"

section \<open>The filter functions on IEEE values\<close>














section \<open>The aggregator in double precision\<close>

text \<open>
  \<^verbatim>\<open>Statistics.update\<close> accumulates its totals with \<^verbatim>\<open>+=\<close> on Python floats, which are IEEE
  binary64 numbers: every sum is rounded to the nearest double, ties to even. A double is
  represented by the real it denotes. \<open>binade fuel x\<close> is the exponent \<open>e\<close> with
  \<open>2 ^ e \<le> x < 2 ^ (e + 1)\<close> for a positive \<open>x\<close>, found in at most \<open>fuel\<close> halvings or doublings
  (the exponents of doubles lie between \<open>-1074\<close> and \<open>1023\<close>); \<open>double_round x\<close> is the
  multiple of the spacing \<open>2 ^ (e - 52)\<close> nearest to \<open>x\<close>, with the spacing of the
  subnormal numbers below \<open>2 ^ - 1022\<close>. Overflow to infinity is not modelled.
\<close>

fun binade :: "nat \<Rightarrow> real \<Rightarrow> int" where
  "binade 0 x = 0"
| "binade (Suc fuel) x =
     (if 2 \<le> x then binade fuel (x / 2) + 1
      else if x < 1 then binade fuel (x * 2) - 1
      else 0)"

definition round_even :: "real \<Rightarrow> int" where
  "round_even x =
     (let f = \<lfloor>x\<rfloor>; d = x - of_int f
      in if d < 1 / 2 then f else if 1 / 2 < d then f + 1 else if even f then f else f + 1)"

definition double_round :: "real \<Rightarrow> real" where
  "double_round x =
     (if x = 0 then 0
      else (let e = max (binade 2100 \<bar>x\<bar>) (- 1022);
                u = 2 powi (e - 52)
            in sgn x * of_int (round_even (\<bar>x\<bar> / u)) * u))"

text \<open>\<^verbatim>\<open>x + y\<close> and \<^verbatim>\<open>x / y\<close> on doubles.\<close>

definition fadd :: "real \<Rightarrow> real \<Rightarrow> real" where
  "fadd x y = double_round (x + y)"

definition fdiv :: "real \<Rightarrow> real \<Rightarrow> real" where
  "fdiv x y = double_round (x / y)"

text \<open>
  \<^verbatim>\<open>Statistics.update\<close> and \<^verbatim>\<open>print_summary\<close> once more, with the addition of the \<^verbatim>\<open>+=\<close> on
  the latency totals and the division of the averages as parameters: with \<open>fadd\<close> and
  \<open>fdiv\<close> they are the functions on doubles, with \<open>(+)\<close> and \<open>(/)\<close> they are \<open>Statistics_update\<close>
  and \<open>print_summary\<close>. The counters are Python integers and \<^verbatim>\<open>min\<close> and \<^verbatim>\<open>max\<close> do not
  round.
\<close>

definition update_global_with ::
  "(real \<Rightarrow> real \<Rightarrow> real) \<Rightarrow> string \<Rightarrow> real \<Rightarrow> statistics \<Rightarrow> statistics" where
  "update_global_with add event_type latency_ms s =
     (if event_type = ''swap'' then
        s\<lparr>swap_count := swap_count s + 1,
          total_swap_latency := add (total_swap_latency s) latency_ms,
          min_swap_latency := py_min (min_swap_latency s) latency_ms,
          max_swap_latency := max (max_swap_latency s) latency_ms\<rparr>
      else if event_type = ''pool'' then
        s\<lparr>pool_count := pool_count s + 1,
          total_pool_latency := add (total_pool_latency s) latency_ms,
          min_pool_latency := py_min (min_pool_latency s) latency_ms,
          max_pool_latency := max (max_pool_latency s) latency_ms\<rparr>
      else s)"

definition Statistics_update_with ::
  "(real \<Rightarrow> real \<Rightarrow> real) \<Rightarrow> string \<Rightarrow> string \<Rightarrow> real \<Rightarrow> statistics
     \<Rightarrow> statistics \<times> py_error option" where
  "Statistics_update_with add event_type chain latency_ms s =
     (let s1 = update_global_with add event_type latency_ms s;
          s2 = ensure_bucket chain s1
      in case map_of (by_chain s2) chain of
           None \<Rightarrow> (s2, Some KeyError)
         | Some b \<Rightarrow>
             (case bucket_incr (event_type @ ''_count'') b of
                None \<Rightarrow> (s2, Some KeyError)
              | Some b1 \<Rightarrow>
                  (s2\<lparr>by_chain :=
                        AList.update chain
                          (b1\<lparr>chain_total_latency := add (chain_total_latency b1) latency_ms\<rparr>)
                          (by_chain s2)\<rparr>,
                   None)))"

fun apply_updates_with ::
  "(real \<Rightarrow> real \<Rightarrow> real) \<Rightarrow> (string \<times> string \<times> real) list \<Rightarrow> statistics
     \<Rightarrow> statistics \<times> py_error option" where
  "apply_updates_with add [] s = (s, None)"
| "apply_updates_with add ((event_type, chain, latency_ms) # rest) s =
     (case Statistics_update_with add event_type chain latency_ms s of
        (s1, Some e) \<Rightarrow> (s1, Some e)
      | (s1, None) \<Rightarrow> apply_updates_with add rest s1)"

definition print_summary_with :: "(real \<Rightarrow> real \<Rightarrow> real) \<Rightarrow> statistics \<Rightarrow> summary" where
  "print_summary_with quot s =
     \<lparr>swap_section =
        (if swap_count s > 0
         then Some (swap_count s, quot (total_swap_latency s) (of_int (swap_count s)),
                    min_swap_latency s, max_swap_latency s)
         else None),
      pool_section =
        (if pool_count s > 0
         then Some (pool_count s, quot (total_pool_latency s) (of_int (pool_count s)),
                    min_pool_latency s, max_pool_latency s)
         else None),
      chain_section =
        List.map_filter
          (\<lambda>cd. let total = chain_swap_count (snd cd) + chain_pool_count (snd cd)
                in if total > 0
                   then Some (fst cd, total, quot (chain_total_latency (snd cd)) (of_int total))
                   else None)
          (by_chain s)\<rparr>"

text \<open>The calls of a run that name the chain \<open>c\<close>, in order, and what one call with event
  type swap or pool does to the bucket of its chain.\<close>

definition chain_updates ::
  "string \<Rightarrow> (string \<times> string \<times> real) list \<Rightarrow> (string \<times> string \<times> real) list" where
  "chain_updates c us = filter (\<lambda>u. fst (snd u) = c) us"

definition bump_with :: "(real \<Rightarrow> real \<Rightarrow> real) \<Rightarrow> string \<Rightarrow> real \<Rightarrow> bucket \<Rightarrow> bucket" where
  "bump_with add event_type l b =
     (if event_type = ''swap''
      then b\<lparr>chain_swap_count := chain_swap_count b + 1,
             chain_total_latency := add (chain_total_latency b) l\<rparr>
      else b\<lparr>chain_pool_count := chain_pool_count b + 1,
             chain_total_latency := add (chain_total_latency b) l\<rparr>)"

text \<open>The bucket latencies added up over the chains, in the order of the buckets, with the
  given addition.\<close>

definition chain_latency_with :: "(real \<Rightarrow> real \<Rightarrow> real) \<Rightarrow> statistics \<Rightarrow> real" where
  "chain_latency_with add s = foldl add 0 (map (\<lambda>cb. chain_total_latency (snd cb)) (by_chain s))"

text \<open>Three swaps on two chains with the latencies \<^verbatim>\<open>0.1\<close>, \<^verbatim>\<open>0.2\<close> and \<^verbatim>\<open>2.2\<close>, as the doubles
  that these literals denote.\<close>

definition rounding_updates :: "(string \<times> string \<times> real) list" where
  "rounding_updates =
     [(''swap'', ''bnb'', double_round (1 / 10)),
      (''swap'', ''solana'', double_round (2 / 10)),
      (''swap'', ''bnb'', double_round (22 / 10))]"

section \<open>The pool loops as folds\<close>




section \<open>Latency calculator\<close>

text \<open>
  Claim C1. For every origin timestamp \<open>t\<close> (a number of seconds) and current time \<open>now\<close>,
  \<open>calculate_latency\<close> returns \<open>(now - t) * 1000\<close> when that value lies in \<open>[0, 120000]\<close>
  and \<^verbatim>\<open>None\<close> when it is negative or greater than 120000; it returns \<^verbatim>\<open>None\<close> whenever
  the origin timestamp is absent or null (\<open>JNull\<close>) or zero.
\<close>

theorem calculate_latency_spec:
  "calculate_latency now JNull = None
   \<and> calculate_latency now (JNum 0) = None
   \<and> (0 \<le> (now - t) * 1000 \<and> (now - t) * 1000 \<le> 120000 \<and> t \<noteq> 0
        \<longrightarrow> calculate_latency now (JNum t) = Some ((now - t) * 1000))
   \<and> ((now - t) * 1000 < 0 \<or> (now - t) * 1000 > 120000
        \<longrightarrow> calculate_latency now (JNum t) = None)"
  by (simp add: calculate_latency_def Let_def)

theorem calculate_latency_spec_witness:
  "calculate_latency 1000 (JNum 998) = Some 2000
   \<and> calculate_latency 1000 (JNum 1001) = None
   \<and> calculate_latency 1000 (JNum 800) = None
   \<and> calculate_latency 1000 JNull = None
   \<and> calculate_latency 1000 (JNum 0) = None"
  using calculate_latency_spec [of 1000 998] calculate_latency_spec [of 1000 1001]
    calculate_latency_spec [of 1000 800]
  by simp

section \<open>Chain name normalizer\<close>

lemma char_lower_not_upper:
  "\<not> (65 \<le> (of_char (char_lower c) :: nat) \<and> (of_char (char_lower c) :: nat) \<le> 90)"
  by (auto simp: char_lower_def Let_def)

lemma char_lower_idem: "char_lower (char_lower c) = char_lower c"
  using char_lower_not_upper[of c] by (simp add: char_lower_def Let_def)

lemma lower_idem: "lower (lower x) = lower x"
  by (simp add: lower_def char_lower_idem)

lemma lower_hd_not_upper:
  "lower x = c # cs \<Longrightarrow> \<not> (65 \<le> (of_char c :: nat) \<and> (of_char c :: nat) \<le> 90)"
  using char_lower_not_upper by (cases x) (auto simp: lower_def)

lemma lower_not_caps:
  "lower x \<noteq> ''Solana''" "lower x \<noteq> ''BNB Chain''" "lower x \<noteq> ''Base''" "lower x \<noteq> ''Ethereum''"
  using lower_hd_not_upper[of x "CHR ''S''"] lower_hd_not_upper[of x "CHR ''B''"]
    lower_hd_not_upper[of x "CHR ''E''"]
  by auto

lemma map_of_CHAIN_MAP_lower:
  "map_of CHAIN_MAP (lower x) =
     (if lower x = ''sol'' then Some ''solana''
      else if lower x = ''bsc'' then Some ''bnb''
      else if lower x = ''base'' then Some ''base''
      else if lower x = ''eth'' then Some ''ethereum''
      else None)"
  using lower_not_caps[of x] by (simp add: CHAIN_MAP_def)

lemma get_chain_name_lower:
  "get_chain_name (lower x) =
     (if lower x = ''sol'' then ''solana''
      else if lower x = ''bsc'' then ''bnb''
      else if lower x = ''eth'' then ''ethereum''
      else lower x)"
  by (simp add: get_chain_name_def map_of_CHAIN_MAP_lower lower_idem)

lemma CHAIN_MAP_keys:
  "map_of CHAIN_MAP x \<noteq> None \<longleftrightarrow>
     x \<in> {''sol'', ''bsc'', ''base'', ''eth'', ''Solana'', ''BNB Chain'', ''Base'', ''Ethereum''}"
  by (simp add: CHAIN_MAP_def)

lemma idem_at_keys:
  "idem_at ''sol''" "idem_at ''bsc''" "idem_at ''base''" "idem_at ''eth''"
  "idem_at ''Solana''" "idem_at ''BNB Chain''" "idem_at ''Base''" "idem_at ''Ethereum''"
  by code_simp+

text \<open>
  Claim C9, as stated: normalization is total and \<open>normalize (normalize x) = normalize x\<close> for
  every input. Totality holds, idempotence does not: \<^verbatim>\<open>"SOL"\<close> is not a key of the table, so
  it is lower-cased to \<^verbatim>\<open>"sol"\<close>, which is a key and normalizes to \<^verbatim>\<open>"solana"\<close>.
\<close>

theorem get_chain_name_not_idempotent:
  "get_chain_name ''SOL'' = ''sol'' \<and> get_chain_name (get_chain_name ''SOL'') = ''solana''"
  by code_simp

text \<open>
  Claim C9, amended. For every string \<open>x\<close> the normalizer returns a value and never an error:
  the table's canonical name when \<open>x\<close> is a key of the table, the lower-cased \<open>x\<close> otherwise.
  \<open>normalize (normalize x) = normalize x\<close> holds exactly for the inputs other than the spellings
  of \<^verbatim>\<open>sol\<close>, \<^verbatim>\<open>bsc\<close> and \<^verbatim>\<open>eth\<close> with an upper-case letter.
\<close>

theorem get_chain_name_normalization:
  "get_chain_name_dyn (JStr x) = Inr (get_chain_name x)
   \<and> (map_of CHAIN_MAP x = Some v \<longrightarrow> get_chain_name x = v)
   \<and> (map_of CHAIN_MAP x = None \<longrightarrow> get_chain_name x = lower x)
   \<and> ((get_chain_name (get_chain_name x) = get_chain_name x)
        = (x \<in> {''sol'', ''bsc'', ''eth''} \<or> lower x \<notin> {''sol'', ''bsc'', ''eth''}))"
proof -
  have idem: "(get_chain_name (get_chain_name x) = get_chain_name x)
        = (x \<in> {''sol'', ''bsc'', ''eth''} \<or> lower x \<notin> {''sol'', ''bsc'', ''eth''})"
  proof (cases "map_of CHAIN_MAP x = None")
    case False
    then have "x \<in> {''sol'', ''bsc'', ''base'', ''eth'', ''Solana'', ''BNB Chain'', ''Base'', ''Ethereum''}"
      by (simp only: CHAIN_MAP_keys)
    then have "idem_at x" using idem_at_keys by blast
    then show ?thesis by (simp only: idem_at_def)
  next
    case True
    then have g: "get_chain_name x = lower x" by (simp add: get_chain_name_def)
    from True have "x \<notin> {''sol'', ''bsc'', ''base'', ''eth'', ''Solana'', ''BNB Chain'', ''Base'', ''Ethereum''}"
      using CHAIN_MAP_keys[of x] by simp
    then have nx: "x \<notin> {''sol'', ''bsc'', ''eth''}" by blast
    have "(get_chain_name (lower x) = lower x) = (lower x \<notin> {''sol'', ''bsc'', ''eth''})"
      unfolding get_chain_name_lower by auto
    then show ?thesis using nx by (simp only: g) simp
  qed
  show ?thesis using idem by (simp add: get_chain_name_def)
qed

theorem get_chain_name_normalization_witness:
  "get_chain_name ''bsc'' = ''bnb''
   \<and> get_chain_name (get_chain_name ''bsc'') = get_chain_name ''bsc''
   \<and> get_chain_name ''Arb'' = ''arb''
   \<and> get_chain_name (get_chain_name ''Arb'') = get_chain_name ''Arb''"
proof -
  note a = get_chain_name_normalization [of "''bsc''" "''bnb''"]
  note b = get_chain_name_normalization [of "''Arb''" "''bnb''"]
  have k: "map_of CHAIN_MAP ''bsc'' = Some ''bnb''" "map_of CHAIN_MAP ''Arb'' = None"
    by (simp_all add: CHAIN_MAP_def)
  have l: "lower ''Arb'' = ''arb''" by code_simp
  have 1: "get_chain_name ''bsc'' = ''bnb''"
    using a [THEN conjunct2, THEN conjunct1] k(1) by (rule mp)
  have 2: "get_chain_name (get_chain_name ''bsc'') = get_chain_name ''bsc''"
    unfolding a [THEN conjunct2, THEN conjunct2, THEN conjunct2] by simp
  have 3: "get_chain_name ''Arb'' = ''arb''"
    using b [THEN conjunct2, THEN conjunct2, THEN conjunct1] k(2) l by simp
  have 4: "get_chain_name (get_chain_name ''Arb'') = get_chain_name ''Arb''"
    unfolding b [THEN conjunct2, THEN conjunct2, THEN conjunct2] l by simp
  show ?thesis
    by (intro conjI) (rule 1, rule 2, rule 3, rule 4)
qed

section \<open>Statistics aggregator\<close>

lemma count_key_swap: "(event_type @ ''_count'' = ''swap_count'') = (event_type = ''swap'')"
proof -
  have "''swap_count'' = ''swap'' @ ''_count''" by simp
  then show ?thesis by (simp only: append_same_eq)
qed

lemma count_key_pool: "(event_type @ ''_count'' = ''pool_count'') = (event_type = ''pool'')"
proof -
  have "''pool_count'' = ''pool'' @ ''_count''" by simp
  then show ?thesis by (simp only: append_same_eq)
qed

lemma count_key_total: "event_type @ ''_count'' \<noteq> ''total_latency''"
proof
  assume "event_type @ ''_count'' = ''total_latency''"
  then have "last (event_type @ ''_count'') = last ''total_latency''" by simp
  then show False by simp
qed

lemma bucket_incr_count:
  "bucket_incr (event_type @ ''_count'') b =
     (if event_type = ''swap'' then Some (b\<lparr>chain_swap_count := chain_swap_count b + 1\<rparr>)
      else if event_type = ''pool'' then Some (b\<lparr>chain_pool_count := chain_pool_count b + 1\<rparr>)
      else None)"
  unfolding bucket_incr_def count_key_swap count_key_pool using count_key_total by simp

lemma map_of_ensure_bucket:
  "map_of (by_chain (ensure_bucket chain s)) chain =
     Some (case map_of (by_chain s) chain of None \<Rightarrow> new_bucket | Some b \<Rightarrow> b)"
  by (auto simp: ensure_bucket_def map_add_def split: option.splits)

lemma other_unchanged:
  assumes "event_type \<noteq> ''swap''" "event_type \<noteq> ''pool''"
  shows "Statistics_update event_type chain latency_ms s = (ensure_bucket chain s, Some KeyError)"
  using assms
  by (simp add: Statistics_update_def Let_def update_global_def map_of_ensure_bucket bucket_incr_count)

lemma by_chain_update_global: "by_chain (update_global event_type l s) = by_chain s"
  by (simp add: update_global_def)

lemma Statistics_update_known:
  assumes "event_type = ''swap'' \<or> event_type = ''pool''"
  shows "Statistics_update event_type chain l s =
      ((ensure_bucket chain (update_global event_type l s))\<lparr>by_chain :=
          AList.update chain
            (bump event_type l (case map_of (by_chain s) chain of None \<Rightarrow> new_bucket | Some b \<Rightarrow> b))
            (by_chain (ensure_bucket chain (update_global event_type l s)))\<rparr>, None)"
proof -
  have "Statistics_update event_type chain l s =
     (case bucket_incr (event_type @ ''_count'')
             (case map_of (by_chain s) chain of None \<Rightarrow> new_bucket | Some b \<Rightarrow> b) of
        None \<Rightarrow> (ensure_bucket chain (update_global event_type l s), Some KeyError)
      | Some b1 \<Rightarrow>
          ((ensure_bucket chain (update_global event_type l s))\<lparr>by_chain :=
              AList.update chain (b1\<lparr>chain_total_latency := chain_total_latency b1 + l\<rparr>)
                (by_chain (ensure_bucket chain (update_global event_type l s)))\<rparr>, None))"
    unfolding Statistics_update_def Let_def map_of_ensure_bucket by_chain_update_global
    by simp
  also have "\<dots> = ((ensure_bucket chain (update_global event_type l s))\<lparr>by_chain :=
          AList.update chain
            (bump event_type l (case map_of (by_chain s) chain of None \<Rightarrow> new_bucket | Some b \<Rightarrow> b))
            (by_chain (ensure_bucket chain (update_global event_type l s)))\<rparr>, None)"
    unfolding bucket_incr_count bump_def using assms by auto
  finally show ?thesis .
qed

text \<open>
  Claim C10. \<open>Statistics_update\<close> changes the global swap counters only when the event type
  is exactly \<^verbatim>\<open>"swap"\<close> and the global pool counters only when it is exactly \<^verbatim>\<open>"pool"\<close>. For
  any other event type the global counters stay as they are, the bucket of an unseen chain
  is still created, and the update of the per-chain count raises \<^verbatim>\<open>KeyError\<close>: the call
  returns without an error only for the two event types.
\<close>

theorem Statistics_update_frame:
  "(event_type = ''swap'' \<longrightarrow>
      snd (Statistics_update event_type chain l s) = None
      \<and> swap_count (fst (Statistics_update event_type chain l s)) = swap_count s + 1
      \<and> total_swap_latency (fst (Statistics_update event_type chain l s)) = total_swap_latency s + l
      \<and> min_swap_latency (fst (Statistics_update event_type chain l s)) = py_min (min_swap_latency s) l
      \<and> max_swap_latency (fst (Statistics_update event_type chain l s)) = max (max_swap_latency s) l
      \<and> pool_count (fst (Statistics_update event_type chain l s)) = pool_count s
      \<and> total_pool_latency (fst (Statistics_update event_type chain l s)) = total_pool_latency s
      \<and> min_pool_latency (fst (Statistics_update event_type chain l s)) = min_pool_latency s
      \<and> max_pool_latency (fst (Statistics_update event_type chain l s)) = max_pool_latency s)
   \<and> (event_type = ''pool'' \<longrightarrow>
      snd (Statistics_update event_type chain l s) = None
      \<and> pool_count (fst (Statistics_update event_type chain l s)) = pool_count s + 1
      \<and> total_pool_latency (fst (Statistics_update event_type chain l s)) = total_pool_latency s + l
      \<and> min_pool_latency (fst (Statistics_update event_type chain l s)) = py_min (min_pool_latency s) l
      \<and> max_pool_latency (fst (Statistics_update event_type chain l s)) = max (max_pool_latency s) l
      \<and> swap_count (fst (Statistics_update event_type chain l s)) = swap_count s
      \<and> total_swap_latency (fst (Statistics_update event_type chain l s)) = total_swap_latency s
      \<and> min_swap_latency (fst (Statistics_update event_type chain l s)) = min_swap_latency s
      \<and> max_swap_latency (fst (Statistics_update event_type chain l s)) = max_swap_latency s)
   \<and> (event_type \<noteq> ''swap'' \<and> event_type \<noteq> ''pool'' \<longrightarrow>
      snd (Statistics_update event_type chain l s) = Some KeyError
      \<and> fst (Statistics_update event_type chain l s) =
          (if map_of (by_chain s) chain = None
           then s\<lparr>by_chain := by_chain s @ [(chain, new_bucket)]\<rparr> else s))"
proof -
  have k: "event_type = ''swap'' \<or> event_type = ''pool'' \<Longrightarrow>
      snd (Statistics_update event_type chain l s) = None
      \<and> swap_count (fst (Statistics_update event_type chain l s)) = swap_count (update_global event_type l s)
      \<and> total_swap_latency (fst (Statistics_update event_type chain l s)) = total_swap_latency (update_global event_type l s)
      \<and> min_swap_latency (fst (Statistics_update event_type chain l s)) = min_swap_latency (update_global event_type l s)
      \<and> max_swap_latency (fst (Statistics_update event_type chain l s)) = max_swap_latency (update_global event_type l s)
      \<and> pool_count (fst (Statistics_update event_type chain l s)) = pool_count (update_global event_type l s)
      \<and> total_pool_latency (fst (Statistics_update event_type chain l s)) = total_pool_latency (update_global event_type l s)
      \<and> min_pool_latency (fst (Statistics_update event_type chain l s)) = min_pool_latency (update_global event_type l s)
      \<and> max_pool_latency (fst (Statistics_update event_type chain l s)) = max_pool_latency (update_global event_type l s)"
    by (simp add: Statistics_update_known ensure_bucket_def)
  have sw: "event_type = ''swap'' \<Longrightarrow> update_global event_type l s =
      s\<lparr>swap_count := swap_count s + 1,
        total_swap_latency := total_swap_latency s + l,
        min_swap_latency := py_min (min_swap_latency s) l,
        max_swap_latency := max (max_swap_latency s) l\<rparr>"
    by (simp add: update_global_def)
  have po: "event_type = ''pool'' \<Longrightarrow> update_global event_type l s =
      s\<lparr>pool_count := pool_count s + 1,
        total_pool_latency := total_pool_latency s + l,
        min_pool_latency := py_min (min_pool_latency s) l,
        max_pool_latency := max (max_pool_latency s) l\<rparr>"
    by (simp add: update_global_def)
  have ot: "event_type \<noteq> ''swap'' \<and> event_type \<noteq> ''pool'' \<Longrightarrow>
      Statistics_update event_type chain l s = (ensure_bucket chain s, Some KeyError)"
    by (simp add: other_unchanged)
  show ?thesis
  proof (intro conjI impI)
  qed (use k sw po in \<open>simp_all add: ot ensure_bucket_def\<close>)
qed

theorem Statistics_update_frame_witness:
  "Statistics_update ''trade'' ''bnb'' 50 Statistics_init =
     (Statistics_init\<lparr>by_chain := [(''bnb'', new_bucket)]\<rparr>, Some KeyError)
   \<and> snd (Statistics_update ''swap'' ''bnb'' 50 Statistics_init) = None
   \<and> swap_count (fst (Statistics_update ''swap'' ''bnb'' 50 Statistics_init)) = 1
   \<and> pool_count (fst (Statistics_update ''swap'' ''bnb'' 50 Statistics_init)) = 0
   \<and> snd (Statistics_update ''pool'' ''bnb'' 50 Statistics_init) = None
   \<and> pool_count (fst (Statistics_update ''pool'' ''bnb'' 50 Statistics_init)) = 1
   \<and> swap_count (fst (Statistics_update ''pool'' ''bnb'' 50 Statistics_init)) = 0"
proof -
  have i: "swap_count Statistics_init = 0" "pool_count Statistics_init = 0"
    "by_chain Statistics_init = []"
    by (simp_all add: Statistics_init_def)
  show ?thesis
    using Statistics_update_frame [of "''trade''" "''bnb''" 50 Statistics_init]
      Statistics_update_frame [of "''swap''" "''bnb''" 50 Statistics_init]
      Statistics_update_frame [of "''pool''" "''bnb''" 50 Statistics_init]
    by (simp add: i prod_eq_iff)
qed

lemma sum_list_update:
  fixes g :: "'b \<Rightarrow> 'c::ab_group_add"
  shows "map_of al k = Some b \<Longrightarrow>
     (\<Sum>x\<leftarrow>AList.update k v al. g (snd x)) = (\<Sum>x\<leftarrow>al. g (snd x)) - g b + g v"
  by (induction al) (auto split: if_splits)

lemma chain_sums_step:
  assumes "event_type = ''swap'' \<or> event_type = ''pool''"
  shows "chain_events (fst (Statistics_update event_type chain l s)) = chain_events s + 1"
    and "chain_latency (fst (Statistics_update event_type chain l s)) = chain_latency s + l"
proof -
  let ?s2 = "ensure_bucket chain (update_global event_type l s)"
  let ?b = "case map_of (by_chain s) chain of None \<Rightarrow> new_bucket | Some b \<Rightarrow> b"
  have m: "map_of (by_chain ?s2) chain = Some ?b"
    by (simp add: map_of_ensure_bucket by_chain_update_global)
  have e2: "chain_events ?s2 = chain_events s" "chain_latency ?s2 = chain_latency s"
    by (simp_all add: chain_events_def chain_latency_def ensure_bucket_def
          by_chain_update_global new_bucket_def)
  show "chain_events (fst (Statistics_update event_type chain l s)) = chain_events s + 1"
    using assms e2(1)
    by (auto simp: Statistics_update_known chain_events_def
          sum_list_update[OF m, where g = "\<lambda>b. chain_swap_count b + chain_pool_count b"] bump_def)
  show "chain_latency (fst (Statistics_update event_type chain l s)) = chain_latency s + l"
    using assms e2(2)
    by (auto simp: Statistics_update_known chain_latency_def
          sum_list_update[OF m, where g = chain_total_latency] bump_def)
qed

lemma global_step:
  assumes "event_type = ''swap'' \<or> event_type = ''pool''"
  shows "snd (Statistics_update event_type chain l s) = None"
    and "swap_count (fst (Statistics_update event_type chain l s)) =
           swap_count s + (if event_type = ''swap'' then 1 else 0)"
    and "pool_count (fst (Statistics_update event_type chain l s)) =
           pool_count s + (if event_type = ''pool'' then 1 else 0)"
    and "total_swap_latency (fst (Statistics_update event_type chain l s)) =
           total_swap_latency s + (if event_type = ''swap'' then l else 0)"
    and "total_pool_latency (fst (Statistics_update event_type chain l s)) =
           total_pool_latency s + (if event_type = ''pool'' then l else 0)"
  using assms
  by (auto simp: Statistics_update_known ensure_bucket_def update_global_def)

lemma apply_updates_invariant:
  assumes "\<forall>u \<in> set us. fst u = ''swap'' \<or> fst u = ''pool''"
  shows "snd (apply_updates us s) = None
     \<and> swap_count (fst (apply_updates us s)) = swap_count s + int (length (latencies_of ''swap'' us))
     \<and> pool_count (fst (apply_updates us s)) = pool_count s + int (length (latencies_of ''pool'' us))
     \<and> total_swap_latency (fst (apply_updates us s)) = total_swap_latency s + sum_list (latencies_of ''swap'' us)
     \<and> total_pool_latency (fst (apply_updates us s)) = total_pool_latency s + sum_list (latencies_of ''pool'' us)
     \<and> chain_events (fst (apply_updates us s)) = chain_events s + int (length us)
     \<and> chain_latency (fst (apply_updates us s)) = chain_latency s + sum_list (map (\<lambda>u. snd (snd u)) us)"
  using assms
proof (induction us arbitrary: s)
  case Nil
  then show ?case by (simp add: latencies_of_def)
next
  case (Cons u us)
  obtain e c l where u: "u = (e, c, l)" by (cases u) auto
  from Cons.prems have k: "e = ''swap'' \<or> e = ''pool''" and rest: "\<forall>u \<in> set us. fst u = ''swap'' \<or> fst u = ''pool''"
    by (auto simp: u)
  obtain s1 where s1: "Statistics_update e c l s = (s1, None)"
    using global_step(1)[OF k, of c l s] by (cases "Statistics_update e c l s") auto
  have ap: "apply_updates (u # us) s = apply_updates us s1"
    by (simp add: u s1)
  note g = global_step[OF k, of c l s, unfolded s1, simplified] chain_sums_step[OF k, of c l s, unfolded s1, simplified]
  show ?case
    unfolding ap using Cons.IH[OF rest, of s1] g k
    by (auto simp: u latencies_of_def)
qed

lemma latencies_split:
  assumes "\<forall>u \<in> set us. fst u = ''swap'' \<or> fst u = ''pool''"
  shows "length us = length (latencies_of ''swap'' us) + length (latencies_of ''pool'' us)"
    and "sum_list (map (\<lambda>u. snd (snd u)) us) =
           sum_list (latencies_of ''swap'' us) + sum_list (latencies_of ''pool'' us)"
proof -
  have ne: "''swap'' \<noteq> ''pool''" by simp
  have "length us = length (latencies_of ''swap'' us) + length (latencies_of ''pool'' us)
      \<and> sum_list (map (\<lambda>u. snd (snd u)) us) =
           sum_list (latencies_of ''swap'' us) + sum_list (latencies_of ''pool'' us)"
    using assms
  proof (induction us)
    case Nil
    then show ?case by (simp add: latencies_of_def)
  next
    case (Cons u us)
    then have ih: "length us = length (latencies_of ''swap'' us) + length (latencies_of ''pool'' us)"
      "sum_list (map (\<lambda>u. snd (snd u)) us) =
           sum_list (latencies_of ''swap'' us) + sum_list (latencies_of ''pool'' us)"
      by simp_all
    from Cons.prems have "fst u = ''swap'' \<or> fst u = ''pool''" by simp
    then show ?case
    proof
      assume f: "fst u = ''swap''"
      have "latencies_of ''swap'' (u # us) = snd (snd u) # latencies_of ''swap'' us"
        "latencies_of ''pool'' (u # us) = latencies_of ''pool'' us"
        using ne by (simp_all add: latencies_of_def f del: list.inject)
      then show ?thesis using ih by simp
    next
      assume f: "fst u = ''pool''"
      have "latencies_of ''pool'' (u # us) = snd (snd u) # latencies_of ''pool'' us"
        "latencies_of ''swap'' (u # us) = latencies_of ''swap'' us"
        using ne[symmetric] by (simp_all add: latencies_of_def f del: list.inject)
      then show ?thesis using ih by simp
    qed
  qed
  then show "length us = length (latencies_of ''swap'' us) + length (latencies_of ''pool'' us)"
    and "sum_list (map (\<lambda>u. snd (snd u)) us) =
           sum_list (latencies_of ''swap'' us) + sum_list (latencies_of ''pool'' us)"
    by simp_all
qed

lemma update_global_with_plus: "update_global_with (+) = update_global"
  by (intro ext) (simp add: update_global_with_def update_global_def)

lemma Statistics_update_with_plus: "Statistics_update_with (+) = Statistics_update"
  by (intro ext) (simp add: Statistics_update_with_def Statistics_update_def update_global_with_plus)

lemma apply_updates_with_plus: "apply_updates_with (+) us s = apply_updates us s"
  by (induction us arbitrary: s) (auto simp: Statistics_update_with_plus split: prod.splits option.splits)

lemma print_summary_with_divide: "print_summary_with (/) = print_summary"
  by (intro ext) (simp add: print_summary_with_def print_summary_def chain_line_def[abs_def] Let_def)

lemma by_chain_update_global_with: "by_chain (update_global_with add event_type l s) = by_chain s"
  by (simp add: update_global_with_def)

lemma Statistics_update_with_known:
  assumes "event_type = ''swap'' \<or> event_type = ''pool''"
  shows "Statistics_update_with add event_type chain l s =
      ((ensure_bucket chain (update_global_with add event_type l s))\<lparr>by_chain :=
          AList.update chain
            (bump_with add event_type l
               (case map_of (by_chain s) chain of None \<Rightarrow> new_bucket | Some b \<Rightarrow> b))
            (by_chain (ensure_bucket chain (update_global_with add event_type l s)))\<rparr>, None)"
proof -
  have "Statistics_update_with add event_type chain l s =
     (case bucket_incr (event_type @ ''_count'')
             (case map_of (by_chain s) chain of None \<Rightarrow> new_bucket | Some b \<Rightarrow> b) of
        None \<Rightarrow> (ensure_bucket chain (update_global_with add event_type l s), Some KeyError)
      | Some b1 \<Rightarrow>
          ((ensure_bucket chain (update_global_with add event_type l s))\<lparr>by_chain :=
              AList.update chain (b1\<lparr>chain_total_latency := add (chain_total_latency b1) l\<rparr>)
                (by_chain (ensure_bucket chain (update_global_with add event_type l s)))\<rparr>, None))"
    unfolding Statistics_update_with_def Let_def map_of_ensure_bucket by_chain_update_global_with
    by simp
  also have "\<dots> = ((ensure_bucket chain (update_global_with add event_type l s))\<lparr>by_chain :=
          AList.update chain
            (bump_with add event_type l
               (case map_of (by_chain s) chain of None \<Rightarrow> new_bucket | Some b \<Rightarrow> b))
            (by_chain (ensure_bucket chain (update_global_with add event_type l s)))\<rparr>, None)"
    unfolding bucket_incr_count bump_with_def using assms by auto
  finally show ?thesis .
qed

lemma with_global_step:
  assumes "event_type = ''swap'' \<or> event_type = ''pool''"
  shows "snd (Statistics_update_with add event_type chain l s) = None"
    and "swap_count (fst (Statistics_update_with add event_type chain l s)) =
           swap_count s + (if event_type = ''swap'' then 1 else 0)"
    and "pool_count (fst (Statistics_update_with add event_type chain l s)) =
           pool_count s + (if event_type = ''pool'' then 1 else 0)"
    and "total_swap_latency (fst (Statistics_update_with add event_type chain l s)) =
           (if event_type = ''swap'' then add (total_swap_latency s) l else total_swap_latency s)"
    and "total_pool_latency (fst (Statistics_update_with add event_type chain l s)) =
           (if event_type = ''pool'' then add (total_pool_latency s) l else total_pool_latency s)"
    and "min_swap_latency (fst (Statistics_update_with add event_type chain l s)) =
           min_swap_latency (update_global event_type l s)"
    and "max_swap_latency (fst (Statistics_update_with add event_type chain l s)) =
           max_swap_latency (update_global event_type l s)"
    and "min_pool_latency (fst (Statistics_update_with add event_type chain l s)) =
           min_pool_latency (update_global event_type l s)"
    and "max_pool_latency (fst (Statistics_update_with add event_type chain l s)) =
           max_pool_latency (update_global event_type l s)"
  using assms
  by (auto simp: Statistics_update_with_known ensure_bucket_def update_global_with_def
        update_global_def)

lemma with_chain_events_step:
  assumes "event_type = ''swap'' \<or> event_type = ''pool''"
  shows "chain_events (fst (Statistics_update_with add event_type chain l s)) = chain_events s + 1"
proof -
  let ?s2 = "ensure_bucket chain (update_global_with add event_type l s)"
  let ?b = "case map_of (by_chain s) chain of None \<Rightarrow> new_bucket | Some b \<Rightarrow> b"
  have m: "map_of (by_chain ?s2) chain = Some ?b"
    by (simp add: map_of_ensure_bucket by_chain_update_global_with)
  have e2: "chain_events ?s2 = chain_events s"
    by (simp add: chain_events_def ensure_bucket_def by_chain_update_global_with new_bucket_def)
  show ?thesis
    using assms e2
    by (auto simp: Statistics_update_with_known chain_events_def
          sum_list_update[OF m, where g = "\<lambda>b. chain_swap_count b + chain_pool_count b"]
          bump_with_def)
qed

lemma with_bucket_step:
  assumes "event_type = ''swap'' \<or> event_type = ''pool''"
  shows "map_of (by_chain (fst (Statistics_update_with add event_type chain l s))) c =
     (if c = chain
      then Some (bump_with add event_type l
                   (case map_of (by_chain s) chain of None \<Rightarrow> new_bucket | Some b \<Rightarrow> b))
      else map_of (by_chain s) c)"
  using assms
  by (auto simp: Statistics_update_with_known update_conv' ensure_bucket_def
        by_chain_update_global_with map_add_def split: option.splits)

lemma with_bucket_fold_fields:
  "chain_total_latency (foldl (\<lambda>b u. bump_with add (fst u) (snd (snd u)) b) b vs)
     = foldl add (chain_total_latency b) (map (\<lambda>u. snd (snd u)) vs)
   \<and> chain_swap_count (foldl (\<lambda>b u. bump_with add (fst u) (snd (snd u)) b) b vs)
     = chain_swap_count b + int (length (filter (\<lambda>u. fst u = ''swap'') vs))
   \<and> chain_pool_count (foldl (\<lambda>b u. bump_with add (fst u) (snd (snd u)) b) b vs)
     = chain_pool_count b + int (length (filter (\<lambda>u. fst u \<noteq> ''swap'') vs))"
proof (induction vs arbitrary: b)
  case Nil
  then show ?case by simp
next
  case (Cons v vs)
  show ?case
    using Cons.IH[of "bump_with add (fst v) (snd (snd v)) b"]
    by (simp add: bump_with_def)
qed

lemma with_run_invariant:
  assumes "\<forall>u \<in> set us. fst u = ''swap'' \<or> fst u = ''pool''"
  shows "snd (apply_updates_with add us s) = None
     \<and> swap_count (fst (apply_updates_with add us s))
         = swap_count s + int (length (latencies_of ''swap'' us))
     \<and> pool_count (fst (apply_updates_with add us s))
         = pool_count s + int (length (latencies_of ''pool'' us))
     \<and> total_swap_latency (fst (apply_updates_with add us s))
         = foldl add (total_swap_latency s) (latencies_of ''swap'' us)
     \<and> total_pool_latency (fst (apply_updates_with add us s))
         = foldl add (total_pool_latency s) (latencies_of ''pool'' us)
     \<and> chain_events (fst (apply_updates_with add us s)) = chain_events s + int (length us)
     \<and> (\<forall>c. map_of (by_chain (fst (apply_updates_with add us s))) c =
           (if chain_updates c us = [] then map_of (by_chain s) c
            else Some (foldl (\<lambda>b u. bump_with add (fst u) (snd (snd u)) b)
                         (case map_of (by_chain s) c of None \<Rightarrow> new_bucket | Some b \<Rightarrow> b)
                         (chain_updates c us))))"
  using assms
proof (induction us arbitrary: s)
  case Nil
  then show ?case by (simp add: latencies_of_def chain_updates_def)
next
  case (Cons u us)
  obtain e ch l where u: "u = (e, ch, l)" by (cases u) auto
  from Cons.prems have k: "e = ''swap'' \<or> e = ''pool''"
    and rest: "\<forall>u \<in> set us. fst u = ''swap'' \<or> fst u = ''pool''"
    by (auto simp: u)
  obtain s1 where s1: "Statistics_update_with add e ch l s = (s1, None)"
    using with_global_step(1)[OF k, of add ch l s]
    by (cases "Statistics_update_with add e ch l s") auto
  have ap: "apply_updates_with add (u # us) s = apply_updates_with add us s1"
    by (simp add: u s1)
  note g = with_global_step(2-5)[OF k, of add ch l s, unfolded s1, simplified]
  note ce = with_chain_events_step[OF k, of add ch l s, unfolded s1, simplified]
  note bk = with_bucket_step[OF k, of add ch l s, unfolded s1, simplified]
  note ih = Cons.IH[OF rest, of s1]
  have ne: "''swap'' \<noteq> ''pool''" by simp
  have 1: "snd (apply_updates_with add (u # us) s) = None"
    unfolding ap using ih by simp
  have 2: "swap_count (fst (apply_updates_with add (u # us) s))
         = swap_count s + int (length (latencies_of ''swap'' (u # us)))"
    unfolding ap using ih g k by (auto simp: u latencies_of_def)
  have 3: "pool_count (fst (apply_updates_with add (u # us) s))
         = pool_count s + int (length (latencies_of ''pool'' (u # us)))"
    unfolding ap using ih g k by (auto simp: u latencies_of_def)
  have 4: "total_swap_latency (fst (apply_updates_with add (u # us) s))
         = foldl add (total_swap_latency s) (latencies_of ''swap'' (u # us))"
    unfolding ap using ih g k by (auto simp: u latencies_of_def)
  have 5: "total_pool_latency (fst (apply_updates_with add (u # us) s))
         = foldl add (total_pool_latency s) (latencies_of ''pool'' (u # us))"
    unfolding ap using ih g k by (auto simp: u latencies_of_def)
  have 6: "chain_events (fst (apply_updates_with add (u # us) s))
         = chain_events s + int (length (u # us))"
    unfolding ap using ih ce by simp
  have 7: "map_of (by_chain (fst (apply_updates_with add (u # us) s))) c =
           (if chain_updates c (u # us) = [] then map_of (by_chain s) c
            else Some (foldl (\<lambda>b u. bump_with add (fst u) (snd (snd u)) b)
                         (case map_of (by_chain s) c of None \<Rightarrow> new_bucket | Some b \<Rightarrow> b)
                         (chain_updates c (u # us))))" for c
  proof (cases "c = ch")
    case True
    have m: "map_of (by_chain s1) ch =
        Some (bump_with add e l (case map_of (by_chain s) ch of None \<Rightarrow> new_bucket | Some b \<Rightarrow> b))"
      using bk[of ch] by simp
    have cu: "chain_updates ch (u # us) = u # chain_updates ch us"
      by (simp add: chain_updates_def u)
    show ?thesis
      unfolding ap True cu
      using ih[THEN conjunct2, THEN conjunct2, THEN conjunct2, THEN conjunct2, THEN conjunct2,
          THEN conjunct2, rule_format, of ch]
      by (simp add: m u)
  next
    case False
    have m: "map_of (by_chain s1) c = map_of (by_chain s) c"
      using bk[of c] False by simp
    have cu: "chain_updates c (u # us) = chain_updates c us"
      using False by (simp add: chain_updates_def u)
    show ?thesis
      unfolding ap cu
      using ih[THEN conjunct2, THEN conjunct2, THEN conjunct2, THEN conjunct2, THEN conjunct2,
          THEN conjunct2, rule_format, of c]
      by (simp add: m)
  qed
  show ?case
    apply (intro conjI allI)
          apply (rule 1)
         apply (rule 2)
        apply (rule 3)
       apply (rule 4)
      apply (rule 5)
     apply (rule 6)
    apply (rule 7)
    done
qed

lemma pool_filter:
  assumes "\<forall>u \<in> set vs. fst u = ''swap'' \<or> fst u = ''pool''"
  shows "filter (\<lambda>u. fst u \<noteq> ''swap'') vs = filter (\<lambda>u. fst u = ''pool'') vs"
  using assms by (induction vs) auto

lemma rounding_run:
  "apply_updates_with fadd rounding_updates Statistics_init =
     (\<lparr>swap_count = 3, pool_count = 0, total_swap_latency = 5 / 2, total_pool_latency = 0,
       min_swap_latency = Finite (3602879701896397 / 36028797018963968),
       max_swap_latency = 2476979795053773 / 1125899906842624,
       min_pool_latency = Infinity, max_pool_latency = 0,
       by_chain =
         [(''bnb'', \<lparr>chain_swap_count = 2, chain_pool_count = 0,
                     chain_total_latency = 5179139571476071 / 2251799813685248\<rparr>),
          (''solana'', \<lparr>chain_swap_count = 1, chain_pool_count = 0,
                     chain_total_latency = 3602879701896397 / 18014398509481984\<rparr>)]\<rparr>,
      None)"
  by code_simp

lemma rounding_sums:
  "fadd (fadd 0 (5179139571476071 / 2251799813685248)) (3602879701896397 / 18014398509481984)
     = 5629499534213121 / 2251799813685248"
  "fadd (5 / 2) 0 = 5 / 2"
  "fdiv (5 / 2) 3 = 7505999378950827 / 9007199254740992"
  by code_simp+

text \<open>
  Claim C6, as stated: after any sequence of updates the running mean is the sum of the
  latencies divided by their number, and the per-chain buckets reconstruct the global
  totals, the cumulative latency included. The totals are Python floats. The global total
  and the bucket totals add the same latencies in different groupings, each sum rounded to
  a double, so the two can differ: after swaps of \<^verbatim>\<open>0.1\<close> on bnb, \<^verbatim>\<open>0.2\<close> on solana and \<^verbatim>\<open>2.2\<close>
  on bnb the global swap total is \<^verbatim>\<open>2.5\<close>, while the buckets hold \<^verbatim>\<open>2.3000000000000003\<close> and
  \<^verbatim>\<open>0.2\<close>, whose sum is not \<^verbatim>\<open>2.5\<close>, neither exactly nor when it is rounded to a double
  (\<^verbatim>\<open>2.5000000000000004\<close>).
\<close>

theorem float_chain_totals_differ:
  "total_swap_latency (fst (apply_updates_with fadd rounding_updates Statistics_init)) = 5 / 2
   \<and> total_pool_latency (fst (apply_updates_with fadd rounding_updates Statistics_init)) = 0
   \<and> chain_latency (fst (apply_updates_with fadd rounding_updates Statistics_init))
       = 45035996273704965 / 18014398509481984
   \<and> chain_latency_with fadd (fst (apply_updates_with fadd rounding_updates Statistics_init))
       = 5629499534213121 / 2251799813685248
   \<and> chain_latency (fst (apply_updates_with fadd rounding_updates Statistics_init))
       \<noteq> total_swap_latency (fst (apply_updates_with fadd rounding_updates Statistics_init))
         + total_pool_latency (fst (apply_updates_with fadd rounding_updates Statistics_init))
   \<and> chain_latency_with fadd (fst (apply_updates_with fadd rounding_updates Statistics_init))
       \<noteq> fadd (total_swap_latency (fst (apply_updates_with fadd rounding_updates Statistics_init)))
              (total_pool_latency (fst (apply_updates_with fadd rounding_updates Statistics_init)))"
  by (simp add: rounding_run chain_latency_def chain_latency_with_def rounding_sums)

text \<open>
  Claim C6, amended. After any sequence of updates of type swap or pool from the initial
  statistics, whatever the addition \<open>add\<close> of the \<^verbatim>\<open>+=\<close> and the division \<open>quot\<close> of the average
  are: no update fails; the swap count is the number \<open>N\<close> of swap updates; the cumulative
  swap latency is \<open>add (\<dots> (add (add 0 L1) L2) \<dots>) LN\<close>, the latencies added one by one in the
  order of the updates, and for \<open>N > 0\<close> the mean that the summary renders is \<open>quot\<close> of this
  total and \<open>N\<close>; likewise for pool. The sum over all chains of the swap and pool counts of
  the buckets is the global swap count plus the global pool count. A chain has a bucket
  exactly when an update named it; its counts are the numbers of swap and of pool updates
  of that chain and its latency total is the latencies of that chain, swap and pool
  together, added one by one in the order of the updates. With exact addition the totals
  are the sums of the latencies, and the sum over all chains of the bucket latencies is the
  global swap total plus the global pool total.
\<close>

theorem aggregator_totals_in_order:
  assumes "\<forall>u \<in> set us. fst u = ''swap'' \<or> fst u = ''pool''"
    and "apply_updates_with add us Statistics_init = (s, err)"
  shows "err = None
     \<and> swap_count s = int (length (latencies_of ''swap'' us))
     \<and> total_swap_latency s = foldl add 0 (latencies_of ''swap'' us)
     \<and> (latencies_of ''swap'' us \<noteq> [] \<longrightarrow>
          swap_section (print_summary_with quot s) =
            Some (swap_count s,
                  quot (foldl add 0 (latencies_of ''swap'' us))
                       (real (length (latencies_of ''swap'' us))),
                  min_swap_latency s, max_swap_latency s))
     \<and> pool_count s = int (length (latencies_of ''pool'' us))
     \<and> total_pool_latency s = foldl add 0 (latencies_of ''pool'' us)
     \<and> (latencies_of ''pool'' us \<noteq> [] \<longrightarrow>
          pool_section (print_summary_with quot s) =
            Some (pool_count s,
                  quot (foldl add 0 (latencies_of ''pool'' us))
                       (real (length (latencies_of ''pool'' us))),
                  min_pool_latency s, max_pool_latency s))
     \<and> chain_events s = swap_count s + pool_count s
     \<and> (\<forall>c. chain_updates c us = [] \<longrightarrow> map_of (by_chain s) c = None)
     \<and> (\<forall>c. chain_updates c us \<noteq> [] \<longrightarrow>
          (\<exists>b. map_of (by_chain s) c = Some b
             \<and> chain_swap_count b = int (length (latencies_of ''swap'' (chain_updates c us)))
             \<and> chain_pool_count b = int (length (latencies_of ''pool'' (chain_updates c us)))
             \<and> chain_total_latency b
                 = foldl add 0 (map (\<lambda>u. snd (snd u)) (chain_updates c us))))
     \<and> (add = (+) \<longrightarrow>
          total_swap_latency s = sum_list (latencies_of ''swap'' us)
          \<and> total_pool_latency s = sum_list (latencies_of ''pool'' us)
          \<and> chain_latency s = total_swap_latency s + total_pool_latency s)"
proof -
  have i0: "chain_events Statistics_init = 0"
    "swap_count Statistics_init = 0" "pool_count Statistics_init = 0"
    "total_swap_latency Statistics_init = 0" "total_pool_latency Statistics_init = 0"
    "by_chain Statistics_init = []"
    by (simp_all add: chain_events_def Statistics_init_def)
  note inv = with_run_invariant[OF assms(1), of add Statistics_init, unfolded assms(2) i0, simplified]
  note sp = latencies_split[OF assms(1)]
  from inv have e: "err = None"
    and sc: "swap_count s = int (length (latencies_of ''swap'' us))"
    and pc: "pool_count s = int (length (latencies_of ''pool'' us))"
    and sl: "total_swap_latency s = foldl add 0 (latencies_of ''swap'' us)"
    and pl: "total_pool_latency s = foldl add 0 (latencies_of ''pool'' us)"
    and ce: "chain_events s = int (length us)"
    and bk: "\<And>c. map_of (by_chain s) c =
           (if chain_updates c us = [] then None
            else Some (foldl (\<lambda>b u. bump_with add (fst u) (snd (snd u)) b) new_bucket
                         (chain_updates c us)))"
    by simp_all
  have ss: "latencies_of ''swap'' us \<noteq> [] \<longrightarrow>
          swap_section (print_summary_with quot s) =
            Some (swap_count s,
                  quot (foldl add 0 (latencies_of ''swap'' us))
                       (real (length (latencies_of ''swap'' us))),
                  min_swap_latency s, max_swap_latency s)"
    by (simp add: print_summary_with_def sc sl)
  have ps: "latencies_of ''pool'' us \<noteq> [] \<longrightarrow>
          pool_section (print_summary_with quot s) =
            Some (pool_count s,
                  quot (foldl add 0 (latencies_of ''pool'' us))
                       (real (length (latencies_of ''pool'' us))),
                  min_pool_latency s, max_pool_latency s)"
    by (simp add: print_summary_with_def pc pl)
  have t1: "chain_events s = swap_count s + pool_count s"
    using ce sc pc sp(1) by simp
  have b0: "\<forall>c. chain_updates c us = [] \<longrightarrow> map_of (by_chain s) c = None"
    using bk by simp
  have b1: "\<forall>c. chain_updates c us \<noteq> [] \<longrightarrow>
          (\<exists>b. map_of (by_chain s) c = Some b
             \<and> chain_swap_count b = int (length (latencies_of ''swap'' (chain_updates c us)))
             \<and> chain_pool_count b = int (length (latencies_of ''pool'' (chain_updates c us)))
             \<and> chain_total_latency b
                 = foldl add 0 (map (\<lambda>u. snd (snd u)) (chain_updates c us)))"
  proof (intro allI impI)
    fix c
    assume n: "chain_updates c us \<noteq> []"
    let ?b = "foldl (\<lambda>b u. bump_with add (fst u) (snd (snd u)) b) new_bucket (chain_updates c us)"
    have a: "\<forall>u \<in> set (chain_updates c us). fst u = ''swap'' \<or> fst u = ''pool''"
      using assms(1) by (simp add: chain_updates_def)
    note f = with_bucket_fold_fields[of add new_bucket "chain_updates c us"]
    have "map_of (by_chain s) c = Some ?b" using bk[of c] n by simp
    moreover have "chain_swap_count ?b = int (length (latencies_of ''swap'' (chain_updates c us)))"
      using f by (simp add: new_bucket_def latencies_of_def)
    moreover have "chain_pool_count ?b = int (length (latencies_of ''pool'' (chain_updates c us)))"
      using f pool_filter[OF a] by (simp add: new_bucket_def latencies_of_def)
    moreover have "chain_total_latency ?b
                 = foldl add 0 (map (\<lambda>u. snd (snd u)) (chain_updates c us))"
      using f by (simp add: new_bucket_def)
    ultimately show "\<exists>b. map_of (by_chain s) c = Some b
             \<and> chain_swap_count b = int (length (latencies_of ''swap'' (chain_updates c us)))
             \<and> chain_pool_count b = int (length (latencies_of ''pool'' (chain_updates c us)))
             \<and> chain_total_latency b
                 = foldl add 0 (map (\<lambda>u. snd (snd u)) (chain_updates c us))"
      by blast
  qed
  have ex: "add = (+) \<longrightarrow>
          total_swap_latency s = sum_list (latencies_of ''swap'' us)
          \<and> total_pool_latency s = sum_list (latencies_of ''pool'' us)
          \<and> chain_latency s = total_swap_latency s + total_pool_latency s"
  proof
    assume p: "add = (+)"
    have r: "apply_updates us Statistics_init = (s, err)"
      using assms(2) by (simp add: p apply_updates_with_plus)
    have j0: "chain_latency Statistics_init = 0"
      by (simp add: chain_latency_def Statistics_init_def)
    note old = apply_updates_invariant[OF assms(1), of Statistics_init, unfolded r i0 j0, simplified]
    from old have xs: "total_swap_latency s = sum_list (latencies_of ''swap'' us)"
      and xp: "total_pool_latency s = sum_list (latencies_of ''pool'' us)"
      and xc: "chain_latency s = sum_list (map (\<lambda>u. snd (snd u)) us)"
      by simp_all
    show "total_swap_latency s = sum_list (latencies_of ''swap'' us)
          \<and> total_pool_latency s = sum_list (latencies_of ''pool'' us)
          \<and> chain_latency s = total_swap_latency s + total_pool_latency s"
      using xs xp xc sp(2) by simp
  qed
  show ?thesis
    apply (intro conjI)
              apply (rule e)
             apply (rule sc)
            apply (rule sl)
           apply (rule ss)
          apply (rule pc)
         apply (rule pl)
        apply (rule ps)
       apply (rule t1)
      apply (rule b0)
     apply (rule b1)
    apply (rule ex)
    done
qed

theorem aggregator_totals_in_order_witness:
  "swap_count (fst (apply_updates_with fadd rounding_updates Statistics_init)) = 3
   \<and> total_swap_latency (fst (apply_updates_with fadd rounding_updates Statistics_init)) = 5 / 2
   \<and> swap_section (print_summary_with fdiv
        (fst (apply_updates_with fadd rounding_updates Statistics_init)))
       = Some (3, 7505999378950827 / 9007199254740992,
               Finite (3602879701896397 / 36028797018963968),
               2476979795053773 / 1125899906842624)
   \<and> chain_events (fst (apply_updates_with fadd rounding_updates Statistics_init)) = 3
   \<and> (\<exists>b. map_of (by_chain (fst (apply_updates_with fadd rounding_updates Statistics_init))) ''bnb''
            = Some b
          \<and> chain_swap_count b = 2
          \<and> chain_total_latency b = 5179139571476071 / 2251799813685248)"
proof -
  have h: "\<forall>u \<in> set rounding_updates. fst u = ''swap'' \<or> fst u = ''pool''"
    by (simp add: rounding_updates_def)
  show ?thesis
    using aggregator_totals_in_order [OF h rounding_run, of fdiv]
    by (simp add: rounding_run print_summary_with_def rounding_sums chain_events_def)
qed

section \<open>Reconnect loop\<close>

lemma attempt_failure: "is_failure c \<Longrightarrow> fst (attempt debug c d st) = d"
  by (cases c) (simp_all add: attempt_def is_failure_def)

lemma attempt_listens: "fst (attempt debug (Listens messages) d st) = 5"
  by (simp add: attempt_def)

lemma backoff_double: "d \<le> 60 \<Longrightarrow> min (min (d * 2) 60 * 2 ^ k) 60 = min (d * 2 ^ Suc k) (60::int)"
proof (cases "d * 2 \<le> 60")
  case True
  then show ?thesis by (simp add: mult.assoc mult.commute)
next
  case False
  then have d: "30 < d" by simp
  have p: "(1::int) \<le> 2 ^ k" by simp
  have a: "60 \<le> 60 * (2::int) ^ k" using p by simp
  have c: "d * 1 \<le> d * 2 ^ k" using p d by (intro mult_left_mono) auto
  have e: "d * 2 ^ Suc k = 2 * (d * 2 ^ k)" by simp
  have b: "60 \<le> d * 2 ^ Suc k" unfolding e using c d by linarith
  show ?thesis using False a b by simp
qed

lemma failures_sleeps:
  assumes "\<forall>x \<in> set cs. is_failure (fst x) \<and> \<not> snd x" and "d \<le> 60"
  shows "snd (monitor_loop debug cs d st) = map (\<lambda>k. min (d * 2 ^ k) 60) [0..<length cs]"
  using assms
proof (induction cs arbitrary: d st)
  case Nil
  then show ?case by simp
next
  case (Cons x cs)
  obtain c stop where x: "x = (c, stop)" by (cases x) auto
  from Cons.prems have f: "is_failure c" and ns: "\<not> stop"
    and rest: "\<forall>x \<in> set cs. is_failure (fst x) \<and> \<not> snd x" by (auto simp: x)
  obtain st1 where a: "attempt debug c d st = (d, st1)"
    using attempt_failure[OF f, of debug d st] by (cases "attempt debug c d st") auto
  have "snd (monitor_loop debug (x # cs) d st) =
          d # snd (monitor_loop debug cs (min (d * 2) 60) (emit StatusLine st1))"
    by (simp add: x a ns case_prod_beta)
  also have "\<dots> = d # map (\<lambda>k. min (min (d * 2) 60 * 2 ^ k) 60) [0..<length cs]"
    using Cons.IH[OF rest, of "min (d * 2) 60"] by simp
  also have "\<dots> = min (d * 2 ^ 0) 60 # map (\<lambda>k. min (d * 2 ^ Suc k) 60) [0..<length cs]"
    using Cons.prems(2) by (simp add: backoff_double del: power_Suc)
  also have "\<dots> = map (\<lambda>k. min (d * 2 ^ k) 60) [0..<length (x # cs)]"
    by (simp add: map_upt_Suc del: upt_Suc power_Suc)
  finally show ?case .
qed

text \<open>
  Claim C5. The sleep durations of the reconnect loop for consecutive passes that fail to
  reach the listening state are 5, 10, 20, 40, 60, 60, 60, ...: the \<open>k\<close>-th is
  \<open>min (5 * 2 ^ k) 60\<close>. A pass that reaches the listening state resets the delay: whatever
  the delay was, the next sleep is 5, and the failures after it sleep 10, 20, 40, 60, ...
\<close>

theorem reconnect_backoff:
  "((\<forall>x \<in> set cs. is_failure (fst x) \<and> \<not> snd x) \<longrightarrow>
      snd (run_gmgn_monitor debug cs st) = map (\<lambda>k. min (5 * 2 ^ k) 60) [0..<length cs])
   \<and> snd (run_gmgn_monitor debug (replicate 7 (ConnectFails, False)) st) = [5, 10, 20, 40, 60, 60, 60]
   \<and> ((\<forall>x \<in> set cs. is_failure (fst x) \<and> \<not> snd x) \<longrightarrow>
      snd (monitor_loop debug ((Listens messages, False) # cs) d st) =
        5 # map (\<lambda>k. min (10 * 2 ^ k) 60) [0..<length cs])"
proof (intro conjI impI)
  assume a: "\<forall>x \<in> set cs. is_failure (fst x) \<and> \<not> snd x"
  show "snd (run_gmgn_monitor debug cs st) = map (\<lambda>k. min (5 * 2 ^ k) 60) [0..<length cs]"
    unfolding run_gmgn_monitor_def by (rule failures_sleeps[OF a]) simp
  obtain st1 where l: "attempt debug (Listens messages) d st = (5, st1)"
    using attempt_listens[of debug messages d st] by (cases "attempt debug (Listens messages) d st") auto
  show "snd (monitor_loop debug ((Listens messages, False) # cs) d st) =
        5 # map (\<lambda>k. min (10 * 2 ^ k) 60) [0..<length cs]"
    using failures_sleeps[OF a, of 10 debug "emit StatusLine st1"]
    by (simp add: l case_prod_beta)
next
  have "snd (run_gmgn_monitor debug (replicate 7 (ConnectFails, False)) st) =
      map (\<lambda>k. min (5 * 2 ^ k) 60) [0..<length (replicate 7 (ConnectFails, False))]"
    unfolding run_gmgn_monitor_def by (rule failures_sleeps) (simp_all add: is_failure_def)
  also have "\<dots> = [5, 10, 20, 40, 60, 60, 60]"
    by (simp add: upt_rec)
  finally show "snd (run_gmgn_monitor debug (replicate 7 (ConnectFails, False)) st) = [5, 10, 20, 40, 60, 60, 60]" .
qed

theorem reconnect_backoff_witness:
  "snd (run_gmgn_monitor False
          [(ConnectFails, False), (SubscribeFails, False), (ConnectFails, False)]
          (started_monitor (\<lambda>k. 1000))) = [5, 10, 20]
   \<and> snd (monitor_loop False
          [(Listens [], False), (ConnectFails, False), (ConnectFails, False)] 60
          (started_monitor (\<lambda>k. 1000))) = [5, 10, 20]"
  using reconnect_backoff [of "[(ConnectFails, False), (SubscribeFails, False), (ConnectFails, False)]"
      False "started_monitor (\<lambda>k. 1000)"]
    reconnect_backoff [of "[(ConnectFails, False), (ConnectFails, False)]"
      False "started_monitor (\<lambda>k. 1000)" "[]" 60]
  by (simp add: is_failure_def upt_rec)

section \<open>The validity filter on the way to the sinks\<close>
























section \<open>Event decoders\<close>

text \<open>
  Claim C3: for every batch given to the swap decoder or the pool decoder and every record
  with missing or null optional fields (null chain, null address, null numbers), decoding
  never raises and every other record of the batch is still processed. The code does not do
  that. A record whose chain is null raises \<^verbatim>\<open>AttributeError\<close> in \<open>get_chain_name\<close>, in both
  decoders, before the record behind it is looked at; the exception also ends the listening
  loop, so the next message of the connection is not processed either. A swap record whose
  address is null raises \<^verbatim>\<open>TypeError\<close> at \<^verbatim>\<open>len(address)\<close>, after the gauges and the
  statistics have been updated, and the record behind it is not processed. The same sibling
  record alone is counted.
\<close>

theorem decoders_raise_on_null_fields:
  "handle_swap_trade debug
      (JArr [JObj [(''c'', JNull), (''t'', JNum 999)], JObj [(''c'', JStr ''bsc''), (''t'', JNum 999)]]) st
     = (st, Some AttributeError)
   \<and> handle_new_pool debug
      (JArr [JObj [(''c'', JNull), (''pa'', JStr ''0xPOOL''), (''ot'', JNum 999)],
             JObj [(''c'', JStr ''base''), (''pa'', JStr ''0xPOOL''), (''ot'', JNum 999)]]) st
     = (st, Some AttributeError)
   \<and> listen_to_gmgn debug
      [Some (JObj [(''channel'', JStr ''new_pair_update''),
                   (''data'', JArr [JObj [(''c'', JNull), (''t'', JNum 999)]])]),
       Some (JObj [(''channel'', JStr ''new_pair_update''),
                   (''data'', JArr [JObj [(''c'', JStr ''bsc''), (''t'', JNum 999)]])])] st
     = (1, emit ErrorLine (snd (time_time st)))
   \<and> swap_count (stats_obj (fst (handle_swap_trade False
        (JArr [JObj [(''c'', JStr ''bsc''), (''t'', JNum 999)]]) (started_monitor (\<lambda>k. 1000))))) = 1
   \<and> handle_swap_trade False
        (JArr [JObj [(''c'', JStr ''bsc''), (''a'', JNull), (''t'', JNum 999)],
               JObj [(''c'', JStr ''bsc''), (''t'', JNum 999)]]) (started_monitor (\<lambda>k. 1000))
      = ((started_monitor (\<lambda>k. 1000))
          \<lparr>stats_obj :=
             \<lparr>swap_count = 1, pool_count = 0, total_swap_latency = 1000, total_pool_latency = 0,
              min_swap_latency = Finite 1000, max_swap_latency = 1000,
              min_pool_latency = Infinity, max_pool_latency = 0,
              by_chain = [(''bnb'', \<lparr>chain_swap_count = 1, chain_pool_count = 0,
                                      chain_total_latency = 1000\<rparr>)]\<rparr>,
           gauges :=
             \<lparr>swap_latency_gauge = Some [(''bnb'', 1000)],
              pool_discovery_latency_gauge = Some [],
              all_aggregator_latency_gauge = Some [((''gmgn'', ''bnb''), 1000)]\<rparr>,
           ticks := 1\<rparr>,
         Some TypeError)"
proof (intro conjI)
  show "handle_swap_trade debug
      (JArr [JObj [(''c'', JNull), (''t'', JNum 999)], JObj [(''c'', JStr ''bsc''), (''t'', JNum 999)]]) st
     = (st, Some AttributeError)"
    by (simp add: handle_swap_trade_def swap_trade_step_def decode_swap_def dict_get_def
          dict_get_none_def debug_unknown_chain_def Let_def)
  show "handle_new_pool debug
      (JArr [JObj [(''c'', JNull), (''pa'', JStr ''0xPOOL''), (''ot'', JNum 999)],
             JObj [(''c'', JStr ''base''), (''pa'', JStr ''0xPOOL''), (''ot'', JNum 999)]]) st
     = (st, Some AttributeError)"
    by (simp add: handle_new_pool_def pool_event_step_def dict_get_def)
  show "listen_to_gmgn debug
      [Some (JObj [(''channel'', JStr ''new_pair_update''),
                   (''data'', JArr [JObj [(''c'', JNull), (''t'', JNum 999)]])]),
       Some (JObj [(''channel'', JStr ''new_pair_update''),
                   (''data'', JArr [JObj [(''c'', JStr ''bsc''), (''t'', JNum 999)]])])] st
     = (1, emit ErrorLine (snd (time_time st)))"
    by (simp add: listen_to_gmgn_def listen_step_def dispatch_def time_time_def
          handle_swap_trade_def swap_trade_step_def decode_swap_def dict_get_def
          dict_get_none_def debug_unknown_chain_def Let_def)
  show "swap_count (stats_obj (fst (handle_swap_trade False
        (JArr [JObj [(''c'', JStr ''bsc''), (''t'', JNum 999)]]) (started_monitor (\<lambda>k. 1000))))) = 1"
    by (simp add: handle_swap_trade_def swap_trade_step_def decode_swap_def dict_get_def
          dict_get_none_def debug_unknown_chain_def get_chain_name_def CHAIN_MAP_def
          calculate_latency_now_def calculate_latency_def time_time_def account_swap_def
          record_latency_def set_swap_latency_def set_all_aggregator_latency_def
          Statistics_update_def update_global_def ensure_bucket_def bucket_incr_def
          new_bucket_def emit_def started_monitor_def init_metrics_def Statistics_init_def Let_def)
  show "handle_swap_trade False
        (JArr [JObj [(''c'', JStr ''bsc''), (''a'', JNull), (''t'', JNum 999)],
               JObj [(''c'', JStr ''bsc''), (''t'', JNum 999)]]) (started_monitor (\<lambda>k. 1000))
      = ((started_monitor (\<lambda>k. 1000))
          \<lparr>stats_obj :=
             \<lparr>swap_count = 1, pool_count = 0, total_swap_latency = 1000, total_pool_latency = 0,
              min_swap_latency = Finite 1000, max_swap_latency = 1000,
              min_pool_latency = Infinity, max_pool_latency = 0,
              by_chain = [(''bnb'', \<lparr>chain_swap_count = 1, chain_pool_count = 0,
                                      chain_total_latency = 1000\<rparr>)]\<rparr>,
           gauges :=
             \<lparr>swap_latency_gauge = Some [(''bnb'', 1000)],
              pool_discovery_latency_gauge = Some [],
              all_aggregator_latency_gauge = Some [((''gmgn'', ''bnb''), 1000)]\<rparr>,
           ticks := 1\<rparr>,
         Some TypeError)"
    by (simp add: handle_swap_trade_def swap_trade_step_def decode_swap_def dict_get_def
          dict_get_none_def debug_unknown_chain_def get_chain_name_def CHAIN_MAP_def
          calculate_latency_now_def calculate_latency_def time_time_def account_swap_def
          record_latency_def set_swap_latency_def set_all_aggregator_latency_def
          Statistics_update_def update_global_def ensure_bucket_def bucket_incr_def
          new_bucket_def emit_def started_monitor_def init_metrics_def Statistics_init_def Let_def)
qed

lemma pool_event_loop_single:
  "pool_event_loop debug [x] st = pool_event_step debug x st"
  by (simp split: prod.splits option.splits)

lemma handle_new_pool_single:
  "handle_new_pool debug (JArr [x]) st = pool_event_step debug x st"
  by (simp add: handle_new_pool_def pool_event_loop_single del: pool_event_loop.simps)

lemma pool_loop_single:
  "pool_loop debug chain open_time [x] st = pool_entry_step debug chain open_time x st"
  by (simp split: prod.splits option.splits)

lemma pool_entry_step_decoded:
  "pool_entry_step debug chain open_time (JObj p) st =
     (case decode_pool open_time p of
        Inl e \<Rightarrow> (st, Some e)
      | Inr r \<Rightarrow>
          (case calculate_latency_now (pl_pool_open_time r) st of
             (None, st1) \<Rightarrow> (st1, None)
           | (Some latency, st1) \<Rightarrow> account_pool debug chain r latency st1))"
  by (simp add: pool_entry_step_def)

text \<open>
  Claim C7. Pool decoding accepts both wire shapes: a batch item \<open>W\<close> whose \<^verbatim>\<open>'p'\<close> is a list
  with the pool entry \<open>E0\<close>, and a pool entry \<open>E\<close> that is itself the batch item, recognised by
  its \<^verbatim>\<open>'pa'\<close> field and the absence of a nested list. For equivalent data (the same chain
  fields, the same open-time once the batch value is inherited, the same exchange, pool
  address, liquidity and token info) the two shapes give the same decoded record and the
  same result of \<open>handle_new_pool\<close> from the same state: the same statistics, the same
  gauges, the same printed lines and the same exception, if any.
\<close>

theorem pool_shapes_equivalent:
  assumes bare_pa: "map_of E ''pa'' \<noteq> None"
    and bare_p: "\<not> truthy (dict_get E ''p'' (JArr []))"
    and wrapped: "dict_get W ''p'' (JArr []) = JArr [JObj E0]"
    and chain: "dict_get W ''c'' (dict_get W ''n'' (JStr ''unknown''))
                  = dict_get E ''c'' (dict_get E ''n'' (JStr ''unknown''))"
    and ot: "dict_get E0 ''ot'' (dict_get_none W ''ot'') = dict_get_none E ''ot''"
    and fields: "\<forall>k \<in> {''ex'', ''pa'', ''il'', ''bti''}. map_of E0 k = map_of E k"
  shows "decode_pool (dict_get_none W ''ot'') E0 = decode_pool (dict_get_none E ''ot'') E
     \<and> handle_new_pool debug (JArr [JObj W]) st = handle_new_pool debug (JArr [JObj E]) st"
proof -
  have f: "dict_get E0 ''ex'' v = dict_get E ''ex'' v" "dict_get E0 ''pa'' v = dict_get E ''pa'' v"
    "dict_get E0 ''il'' v = dict_get E ''il'' v" "dict_get E0 ''bti'' v = dict_get E ''bti'' v" for v
    using fields by (simp_all add: dict_get_def)
  have o: "dict_get E ''ot'' (dict_get_none E ''ot'') = dict_get_none E ''ot''"
    by (simp add: dict_get_none_def dict_get_def split: option.splits)
  have d: "decode_pool (dict_get_none W ''ot'') E0 = decode_pool (dict_get_none E ''ot'') E"
    unfolding decode_pool_def f ot o by (rule refl)
  have pw: "pools_of W = JArr [JObj E0]"
    by (simp add: pools_of_def wrapped)
  have pe: "pools_of E = JArr [JObj E]"
    using bare_pa bare_p by (simp add: pools_of_def)
  have "pool_event_step debug (JObj W) st = pool_event_step debug (JObj E) st"
  proof (cases "get_chain_name_dyn (dict_get E ''c'' (dict_get E ''n'' (JStr ''unknown'')))")
    case (Inl e)
    then show ?thesis by (simp add: pool_event_step_def chain)
  next
    case (Inr c)
    then show ?thesis
      by (simp add: pool_event_step_def pw pe chain pool_loop_single pool_entry_step_decoded d
            del: pool_loop.simps)
  qed
  then show ?thesis using d by (simp add: handle_new_pool_single)
qed

lemma handle_new_pool_example:
  "handle_new_pool False
     (JArr [JObj [(''c'', JStr ''base''), (''pa'', JStr ''0xPOOL''), (''ot'', JNum 998), (''ex'', JStr ''uni'')]])
     (started_monitor (\<lambda>k. 1000))
   = ((started_monitor (\<lambda>k. 1000))
        \<lparr>stats_obj :=
           \<lparr>swap_count = 0, pool_count = 1, total_swap_latency = 0, total_pool_latency = 2000,
            min_swap_latency = Infinity, max_swap_latency = 0,
            min_pool_latency = Finite 2000, max_pool_latency = 2000,
            by_chain = [(''base'', \<lparr>chain_swap_count = 0, chain_pool_count = 1,
                                     chain_total_latency = 2000\<rparr>)]\<rparr>,
         gauges :=
           \<lparr>swap_latency_gauge = Some [],
            pool_discovery_latency_gauge = Some [((''gmgn'', ''base''), 2000)],
            all_aggregator_latency_gauge = Some [((''gmgn'', ''base''), 2000)]\<rparr>,
         ticks := 1,
         console := [PoolLine ''base'' (JStr ''0xPOOL'') 2000]\<rparr>,
      None)"
  by (simp add: handle_new_pool_single pool_event_step_def dict_get_def dict_get_none_def
        get_chain_name_def CHAIN_MAP_def pools_of_def pool_entry_step_def decode_pool_def
        calculate_latency_now_def calculate_latency_def time_time_def account_pool_def
        record_pool_discovery_latency_def set_pool_discovery_latency_def
        set_all_aggregator_latency_def Statistics_update_def update_global_def ensure_bucket_def
        bucket_incr_def new_bucket_def emit_def started_monitor_def init_metrics_def
        Statistics_init_def Let_def)

theorem pool_shapes_equivalent_witness:
  "handle_new_pool False
     (JArr [JObj [(''c'', JStr ''base''), (''ot'', JNum 998),
                  (''p'', JArr [JObj [(''pa'', JStr ''0xPOOL''), (''ex'', JStr ''uni'')]])]])
     (started_monitor (\<lambda>k. 1000))
   = handle_new_pool False
     (JArr [JObj [(''c'', JStr ''base''), (''pa'', JStr ''0xPOOL''), (''ot'', JNum 998), (''ex'', JStr ''uni'')]])
     (started_monitor (\<lambda>k. 1000))
   \<and> pool_count (stats_obj (fst (handle_new_pool False
     (JArr [JObj [(''c'', JStr ''base''), (''ot'', JNum 998),
                  (''p'', JArr [JObj [(''pa'', JStr ''0xPOOL''), (''ex'', JStr ''uni'')]])]])
     (started_monitor (\<lambda>k. 1000))))) = 1"
proof -
  have e: "handle_new_pool False
     (JArr [JObj [(''c'', JStr ''base''), (''ot'', JNum 998),
                  (''p'', JArr [JObj [(''pa'', JStr ''0xPOOL''), (''ex'', JStr ''uni'')]])]])
     (started_monitor (\<lambda>k. 1000))
   = handle_new_pool False
     (JArr [JObj [(''c'', JStr ''base''), (''pa'', JStr ''0xPOOL''), (''ot'', JNum 998), (''ex'', JStr ''uni'')]])
     (started_monitor (\<lambda>k. 1000))"
    by (rule pool_shapes_equivalent
          [where ?E0.0 = "[(''pa'', JStr ''0xPOOL''), (''ex'', JStr ''uni'')]", THEN conjunct2])
       (simp_all add: dict_get_def dict_get_none_def)
  show ?thesis
    unfolding e by (simp add: handle_new_pool_example)
qed














section \<open>Listening loop\<close>

lemma summaries_emit: "summaries (emit l st) = summaries st + (if is_summary l then 1 else 0)"
  by (simp add: summaries_def emit_def)

lemma summaries_upd [simp]:
  "summaries (st\<lparr>gauges := g\<rparr>) = summaries st"
  "summaries (st\<lparr>stats_obj := s\<rparr>) = summaries st"
  "summaries (st\<lparr>ticks := n\<rparr>) = summaries st"
  by (simp_all add: summaries_def)

lemma summaries_time: "summaries (snd (time_time st)) = summaries st"
  by (simp add: time_time_def)

lemma summaries_latency: "summaries (snd (calculate_latency_now ts st)) = summaries st"
  by (simp add: calculate_latency_now_def time_time_def)

lemma summaries_debug: "summaries (fst (debug_unknown_chain debug d r st)) = summaries st"
  by (simp add: debug_unknown_chain_def summaries_emit Let_def split: json.splits)

lemma summaries_account_swap: "summaries (fst (account_swap debug chain r l st)) = summaries st"
  by (simp add: account_swap_def summaries_emit Let_def split: prod.splits option.splits sum.splits)

lemma summaries_account_pool: "summaries (fst (account_pool debug chain r l st)) = summaries st"
  by (simp add: account_pool_def summaries_emit Let_def split: prod.splits option.splits sum.splits)

lemma summaries_swap_trade_step: "summaries (fst (swap_trade_step debug trade st)) = summaries st"
proof (cases trade)
  case (JObj d)
  obtain st1 e1 where a: "debug_unknown_chain debug d (decode_swap d) st = (st1, e1)"
    by (cases "debug_unknown_chain debug d (decode_swap d) st") auto
  have s1: "summaries st1 = summaries st" using summaries_debug[of debug d "decode_swap d" st] a by simp
  obtain lo st2 where b: "calculate_latency_now (sw_server_time (decode_swap d)) st1 = (lo, st2)"
    by (cases "calculate_latency_now (sw_server_time (decode_swap d)) st1") auto
  have s2: "summaries st2 = summaries st"
    using summaries_latency[of "sw_server_time (decode_swap d)" st1] b s1 by simp
  show ?thesis
    by (simp add: swap_trade_step_def JObj Let_def a b s1 s2 summaries_account_swap
          split: option.splits sum.splits)
qed (simp_all add: swap_trade_step_def)

lemma summaries_swap_loop: "summaries (fst (swap_loop debug trades st)) = summaries st"
proof (induction trades arbitrary: st)
  case Nil
  then show ?case by simp
next
  case (Cons t ts)
  obtain st1 e where a: "swap_trade_step debug t st = (st1, e)"
    by (cases "swap_trade_step debug t st") auto
  have "summaries st1 = summaries st" using summaries_swap_trade_step[of debug t st] a by simp
  then show ?case using Cons.IH[of st1] by (simp add: a split: option.splits)
qed

lemma summaries_handle_swap_trade: "summaries (fst (handle_swap_trade debug data st)) = summaries st"
  by (simp add: handle_swap_trade_def summaries_swap_loop split: sum.splits)

lemma summaries_pool_entry_step:
  "summaries (fst (pool_entry_step debug chain open_time pool st)) = summaries st"
proof (cases pool)
  case (JObj p)
  show ?thesis
  proof (cases "decode_pool open_time p")
    case (Inl e)
    then show ?thesis by (simp add: pool_entry_step_def JObj)
  next
    case (Inr r)
    obtain lo st1 where b: "calculate_latency_now (pl_pool_open_time r) st = (lo, st1)"
      by (cases "calculate_latency_now (pl_pool_open_time r) st") auto
    have s1: "summaries st1 = summaries st"
      using summaries_latency[of "pl_pool_open_time r" st] b by simp
    show ?thesis
      by (simp add: pool_entry_step_def JObj Inr b s1 summaries_account_pool split: option.splits)
  qed
qed (simp_all add: pool_entry_step_def)

lemma summaries_pool_loop:
  "summaries (fst (pool_loop debug chain open_time pools st)) = summaries st"
proof (induction pools arbitrary: st)
  case Nil
  then show ?case by simp
next
  case (Cons p ps)
  obtain st1 e where a: "pool_entry_step debug chain open_time p st = (st1, e)"
    by (cases "pool_entry_step debug chain open_time p st") auto
  have "summaries st1 = summaries st"
    using summaries_pool_entry_step[of debug chain open_time p st] a by simp
  then show ?case using Cons.IH[of st1] by (simp add: a split: option.splits)
qed

lemma summaries_pool_event_step: "summaries (fst (pool_event_step debug ev st)) = summaries st"
  by (cases ev) (simp_all add: pool_event_step_def summaries_pool_loop split: sum.splits)

lemma summaries_pool_event_loop: "summaries (fst (pool_event_loop debug evs st)) = summaries st"
proof (induction evs arbitrary: st)
  case Nil
  then show ?case by simp
next
  case (Cons p ps)
  obtain st1 e where a: "pool_event_step debug p st = (st1, e)"
    by (cases "pool_event_step debug p st") auto
  have "summaries st1 = summaries st"
    using summaries_pool_event_step[of debug p st] a by simp
  then show ?case using Cons.IH[of st1] by (simp add: a split: option.splits)
qed

lemma summaries_handle_new_pool: "summaries (fst (handle_new_pool debug data st)) = summaries st"
  by (simp add: handle_new_pool_def summaries_pool_event_loop split: sum.splits)

lemma summaries_dispatch: "summaries (fst (dispatch debug channel payload st)) = summaries st"
  by (simp add: dispatch_def summaries_handle_swap_trade summaries_handle_new_pool)

lemma listen_step_skipped:
  assumes "skipped message"
  shows "snd (listen_step debug message n st) = None
     \<and> summaries (fst (listen_step debug message n st)) = summaries st"
  using assms
  by (auto simp: skipped_def listen_step_def summaries_emit Let_def split: option.splits json.splits)

lemma listen_step_channeled:
  assumes "channeled message"
  shows "summaries (fst (listen_step debug message n st)) =
           summaries st + (if snd (listen_step debug message n st) = None \<and> n mod 50 = 0 then 1 else 0)"
proof -
  from assms obtain d where m: "message = Some (JObj d)"
    and t: "truthy (dict_get_none d ''channel'')" and na: "dict_get_none d ''channel'' \<noteq> JStr ''ack''"
    by (auto simp: channeled_def split: option.splits json.splits)
  obtain st1 e where a: "dispatch debug (dict_get_none d ''channel'') (dict_get_none d ''data'') st = (st1, e)"
    by (cases "dispatch debug (dict_get_none d ''channel'') (dict_get_none d ''data'') st") auto
  have s1: "summaries st1 = summaries st"
    using summaries_dispatch[of debug "dict_get_none d ''channel''" "dict_get_none d ''data''" st] a by simp
  show ?thesis
    by (cases e) (simp_all add: listen_step_def m t na a s1 summaries_emit Let_def)
qed

lemma listen_loop_skipped_step:
  assumes "skipped message"
  shows "\<exists>st1. listen_loop debug (message # rest) n st = listen_loop debug rest (n + 1) st1
           \<and> summaries st1 = summaries st"
proof -
  obtain st1 where a: "listen_step debug message (n + 1) (snd (time_time st)) = (st1, None)"
    using listen_step_skipped[OF assms, of debug "n + 1" "snd (time_time st)"]
    by (cases "listen_step debug message (n + 1) (snd (time_time st))") auto
  have "summaries st1 = summaries st"
    using listen_step_skipped[OF assms, of debug "n + 1" "snd (time_time st)"] a
    by (simp add: summaries_time)
  moreover have "listen_loop debug (message # rest) n st = listen_loop debug rest (n + 1) st1"
    using a by (simp add: case_prod_beta Let_def)
  ultimately show ?thesis by blast
qed

lemma listen_loop_skipped_prefix:
  assumes "\<forall>m \<in> set ms. skipped m"
  shows "\<exists>st1. listen_loop debug (ms @ rest) n st = listen_loop debug rest (n + int (length ms)) st1
           \<and> summaries st1 = summaries st"
  using assms
proof (induction ms arbitrary: n st)
  case Nil
  show ?case by (rule exI[of _ st]) simp
next
  case (Cons m ms)
  then have sm: "skipped m" and r: "\<forall>m \<in> set ms. skipped m" by simp_all
  obtain st1 where a: "listen_loop debug (m # (ms @ rest)) n st = listen_loop debug (ms @ rest) (n + 1) st1"
    and s1: "summaries st1 = summaries st"
    using listen_loop_skipped_step[OF sm, of debug "ms @ rest" n st] by blast
  obtain st2 where b: "listen_loop debug (ms @ rest) (n + 1) st1 = listen_loop debug rest (n + 1 + int (length ms)) st2"
    and s2: "summaries st2 = summaries st1"
    using Cons.IH[OF r, of "n + 1" st1] by blast
  have "listen_loop debug ((m # ms) @ rest) n st = listen_loop debug rest (n + int (length (m # ms))) st2"
  proof -
    have e: "n + int (length (m # ms)) = n + 1 + int (length ms)" by simp
    show ?thesis unfolding e using a b by (simp del: listen_loop.simps)
  qed
  then show ?case using s1 s2 by (metis)
qed

lemma ack_skipped: "skipped (Some (JObj [(''channel'', JStr ''ack'')]))"
  by (simp add: skipped_def dict_get_none_def dict_get_def)

lemma swap_channeled: "channeled (Some (JObj [(''channel'', JStr ''new_pair_update'')]))"
  by (simp add: channeled_def dict_get_none_def dict_get_def)

lemma swap_message_step:
  "listen_step debug (Some (JObj [(''channel'', JStr ''new_pair_update'')])) n st =
     (if n mod 50 = 0 then emit (SummaryLine (print_summary (stats_obj st))) st else st, None)"
  by (simp add: listen_step_def dict_get_none_def dict_get_def dispatch_def handle_swap_trade_def)

text \<open>
  Claim C4, as stated: exactly every 50th message dispatched to the swap or pool path
  triggers a summary, and messages that are not parsed, have no channel or are \<^verbatim>\<open>"ack"\<close> do
  not count toward the cadence. They do count: \<^verbatim>\<open>message_count\<close> is incremented for every
  message received. After 49 \<^verbatim>\<open>"ack"\<close> messages the first message on the swap channel
  triggers a summary.
\<close>

theorem summary_after_first_channeled_message:
  "summaries (snd (listen_to_gmgn False
      (replicate 49 (Some (JObj [(''channel'', JStr ''ack'')]))
         @ [Some (JObj [(''channel'', JStr ''new_pair_update'')])])
      (started_monitor (\<lambda>k. 1000)))) = 1"
proof -
  have "\<forall>m \<in> set (replicate 49 (Some (JObj [(''channel'', JStr ''ack'')]))). skipped m"
    using ack_skipped by simp
  from listen_loop_skipped_prefix[OF this, of False "[Some (JObj [(''channel'', JStr ''new_pair_update'')])]" 0
      "started_monitor (\<lambda>k. 1000)"]
  obtain st1 where a: "listen_loop False
      (replicate 49 (Some (JObj [(''channel'', JStr ''ack'')]))
         @ [Some (JObj [(''channel'', JStr ''new_pair_update'')])]) 0 (started_monitor (\<lambda>k. 1000))
      = listen_loop False [Some (JObj [(''channel'', JStr ''new_pair_update'')])] 49 st1"
    and s: "summaries st1 = summaries (started_monitor (\<lambda>k. 1000))"
    by auto
  have z: "summaries (started_monitor (\<lambda>k. 1000)) = 0"
    by (simp add: summaries_def started_monitor_def)
  show ?thesis
    unfolding listen_to_gmgn_def a
    by (simp add: swap_message_step summaries_emit summaries_time s z case_prod_beta Let_def)
qed

text \<open>
  Claim C4, amended. The listening loop counts every message it receives, also the ones it
  skips (not parsed, no channel, \<^verbatim>\<open>"ack"\<close>): a skipped message adds one to the count and
  renders no summary. A message with a channel other than \<^verbatim>\<open>"ack"\<close> renders one summary
  exactly when its handling raises no exception and the count of all messages received so
  far on the connection, this one included, is a multiple of 50.
\<close>

theorem summary_cadence:
  "(skipped message \<longrightarrow>
      (\<exists>st1. listen_loop debug (message # rest) n st = listen_loop debug rest (n + 1) st1
             \<and> summaries st1 = summaries st))
   \<and> (channeled message \<longrightarrow>
        summaries (fst (listen_step debug message (n + 1) st)) =
          summaries st
          + (if snd (listen_step debug message (n + 1) st) = None \<and> (n + 1) mod 50 = 0 then 1 else 0)
        \<and> listen_loop debug (message # rest) n st =
            (case listen_step debug message (n + 1) (snd (time_time st)) of
               (st2, Some e) \<Rightarrow> (n + 1, emit ErrorLine st2)
             | (st2, None) \<Rightarrow> listen_loop debug rest (n + 1) st2))"
  using listen_loop_skipped_step[of message debug rest n st]
    listen_step_channeled[of message debug "n + 1" st]
  by (simp add: case_prod_beta Let_def)

theorem summary_cadence_witness:
  "summaries (fst (listen_step False (Some (JObj [(''channel'', JStr ''new_pair_update'')])) (49 + 1)
      (started_monitor (\<lambda>k. 1000)))) = 1
   \<and> summaries (fst (listen_step False (Some (JObj [(''channel'', JStr ''new_pair_update'')])) (50 + 1)
      (started_monitor (\<lambda>k. 1000)))) = 0
   \<and> (\<exists>st1. listen_loop False [Some (JObj [(''channel'', JStr ''ack'')])] 49 (started_monitor (\<lambda>k. 1000))
              = listen_loop False [] (49 + 1) st1
            \<and> summaries st1 = summaries (started_monitor (\<lambda>k. 1000)))"
proof -
  have z: "summaries (started_monitor (\<lambda>k. 1000)) = 0"
    by (simp add: summaries_def started_monitor_def)
  note a = summary_cadence [of "Some (JObj [(''channel'', JStr ''new_pair_update'')])" False "[]" 49
      "started_monitor (\<lambda>k. 1000)", THEN conjunct2, rule_format, OF swap_channeled, THEN conjunct1]
  note b = summary_cadence [of "Some (JObj [(''channel'', JStr ''new_pair_update'')])" False "[]" 50
      "started_monitor (\<lambda>k. 1000)", THEN conjunct2, rule_format, OF swap_channeled, THEN conjunct1]
  note c = summary_cadence [of "Some (JObj [(''channel'', JStr ''ack'')])" False "[]" 49
      "started_monitor (\<lambda>k. 1000)", THEN conjunct1, rule_format, OF ack_skipped]
  have 1: "summaries (fst (listen_step False (Some (JObj [(''channel'', JStr ''new_pair_update'')])) (49 + 1)
      (started_monitor (\<lambda>k. 1000)))) = 1"
    unfolding a by (simp add: swap_message_step z)
  have 2: "summaries (fst (listen_step False (Some (JObj [(''channel'', JStr ''new_pair_update'')])) (50 + 1)
      (started_monitor (\<lambda>k. 1000)))) = 0"
    unfolding b by (simp add: swap_message_step z)
  show ?thesis
    by (intro conjI) (rule 1, rule 2, rule c)
qed

end
